theory Spec2Isabelle
  imports Main "HOL-Library.Sublist" "HOL-Library.Word"
begin

chapter \<open>The on-disk storage of a data part\<close>

text \<open>
  A shallow embedding of \<^verbatim>\<open>src/Storages/MergeTree/DataPartStorageOnDisk.cpp\<close>: the path
  probing of \<^verbatim>\<open>getRelativePathForPrefix\<close>, \<^verbatim>\<open>remove\<close> and \<^verbatim>\<open>clearDirectory\<close>,
  \<^verbatim>\<open>writeVersionMetadata\<close> and \<^verbatim>\<open>loadVersionMetadata\<close>, \<^verbatim>\<open>writeDeleteOnDestroyMarker\<close>,
  \<^verbatim>\<open>rename\<close> and \<^verbatim>\<open>clone\<close>. A function of the source takes the disk as an argument and
  returns it with its result; an exception is the left injection of the result, and the
  disk returned with it is the disk as the throwing call left it. Logging is not
  modelled.
\<close>


section \<open>Paths\<close>

text \<open>
  The source builds every path with \<^verbatim>\<open>std::filesystem::path\<close> and hands the resulting
  string to the disk. The operations it uses are modelled on strings with the POSIX
  behaviour of the standard library: \<^verbatim>\<open>operator/\<close>, \<^verbatim>\<open>filename\<close>,
  \<^verbatim>\<open>has_filename\<close> and \<^verbatim>\<open>remove_filename\<close>.
\<close>

definition is_absolute :: "string \<Rightarrow> bool" where
  "is_absolute p = (case p of [] \<Rightarrow> False | c # _ \<Rightarrow> c = CHR ''/'')"

definition filename :: "string \<Rightarrow> string" where
  "filename p = rev (takeWhile (\<lambda>c. c \<noteq> CHR ''/'') (rev p))"

definition has_filename :: "string \<Rightarrow> bool" where
  "has_filename p = (filename p \<noteq> [])"

definition remove_filename :: "string \<Rightarrow> string" where
  "remove_filename p = rev (dropWhile (\<lambda>c. c \<noteq> CHR ''/'') (rev p))"

text \<open>
  \<^verbatim>\<open>p / q\<close>: an absolute right operand replaces the left one; otherwise a separator is
  inserted exactly when the left operand ends in a file name.
\<close>

definition path_slash :: "string \<Rightarrow> string \<Rightarrow> string" where
  "path_slash p q =
     (if is_absolute q then q
      else if has_filename p then p @ ''/'' @ q
      else p @ q)"

text \<open>
  The disk addresses an entry by the non-empty components of the path string, so
  \<^verbatim>\<open>a/b\<close>, \<^verbatim>\<open>a/b/\<close> and \<^verbatim>\<open>a//b\<close> name the same entry; with the slash at its end
  the path names that entry only if it is a directory.
\<close>

fun split_path :: "string \<Rightarrow> string list" where
  "split_path [] = [[]]"
| "split_path (c # cs) =
     (if c = CHR ''/'' then [] # split_path cs
      else (case split_path cs of
              [] \<Rightarrow> [[c]]
            | x # xs \<Rightarrow> (c # x) # xs))"

definition components :: "string \<Rightarrow> string list" where
  "components p = filter (\<lambda>s. s \<noteq> []) (split_path p)"

section \<open>Exceptions\<close>

text \<open>
  \<^verbatim>\<open>DB::Exception\<close> carries an error code and derives from \<^verbatim>\<open>Poco::Exception\<close>;
  \<^verbatim>\<open>std::filesystem::filesystem_error\<close> carries a \<^verbatim>\<open>std::errc\<close> and is a standard
  exception, not a Poco one. The two remaining constructors stand for any other Poco
  exception and any other standard exception. The error codes are those the file names;
  \<^verbatim>\<open>CANNOT_PARSE_TEXT\<close> is the one the modelled reader of the version file raises.
\<close>

datatype error_code =
  FILE_DOESNT_EXIST | DIRECTORY_ALREADY_EXISTS | NOT_ENOUGH_SPACE | LOGICAL_ERROR
  | CANNOT_PARSE_TEXT

datatype errc =
  no_such_file_or_directory | file_exists | directory_not_empty
  | is_a_directory | not_a_directory | invalid_argument | io_error

datatype exn =
  Exception error_code
  | filesystem_error errc
  | Poco_Exception
  | std_exception

fun is_Poco_Exception :: "exn \<Rightarrow> bool" where
  "is_Poco_Exception (Exception _) = True"
| "is_Poco_Exception Poco_Exception = True"
| "is_Poco_Exception (filesystem_error _) = False"
| "is_Poco_Exception std_exception = False"

section \<open>The disk\<close>

text \<open>
  Modelled from the spec: the disk/volume collaborator (\<^verbatim>\<open>IDisk\<close>), whose
  implementation is outside the modelled sources. The spec describes it as a
  path-addressable store with exists, read, write, move, copy and remove primitives.
  The model is an association list from component lists to nodes; the components
  \<^verbatim>\<open>.\<close> and \<^verbatim>\<open>..\<close> are names like any other. As on a POSIX file system, creating a
  file, writing it and moving an entry need the parent directory of the target, and a
  path that ends in a slash names a directory only. Reference counts and remote blobs
  are not part of the directory view: the \<^verbatim>\<open>keep_shared\<close> flag and the set of names not to
  remove are recorded in the call, and the entries are removed from the view in either
  case.

  Every call that changes the disk, lists a directory or takes a sync guard is appended
  to \<open>calls\<close>, with the path strings exactly as the caller passed them. \<open>faults\<close> makes a
  call fail with a given exception before it has any effect: it stands for the failures
  of a backend that the entries do not explain (an I/O error, a full disk). A call that
  is not faulted fails only where its precondition on the entries fails, and then with a
  \<^verbatim>\<open>std::filesystem::filesystem_error\<close>, the exception the handler in \<^verbatim>\<open>remove\<close> expects from
  \<^verbatim>\<open>moveDirectory\<close>; a failed call leaves the entries as they were, except a batch removal,
  which keeps what it removed before the failure.
\<close>

datatype node = File string | Dir

type_synonym key = "string list"

type_synonym entries = "(key \<times> node) list"

datatype WriteMode = Rewrite | Append

datatype RemoveFileRequest = RemoveFileRequest (path: string) (if_exists: bool)

datatype disk_call =
  RemoveSharedRecursive string bool "string set"
  | RemoveSharedFiles "RemoveFileRequest list" bool "string set"
  | RemoveRecursive string
  | RemoveDirectory string
  | RemoveFile string
  | RemoveFileIfExists string
  | MoveDirectory string string
  | ReplaceFile string string
  | WriteFile string WriteMode string
  | CreateFile string
  | CreateDirectories string
  | Copy string string
  | ListFiles string
  | SetLastModified string nat
  | GetDirectorySyncGuard string
  | ReadFile string
  | GetLastModified string

record disk =
  entries :: entries
  calls :: "disk_call list"
  faults :: "disk_call \<Rightarrow> exn option"

text \<open>Modelled from the spec: the node a key addresses. The root of the disk is always a
  directory.\<close>

definition lookup :: "entries \<Rightarrow> key \<Rightarrow> node option" where
  "lookup es k = (if k = [] then Some Dir else map_of es k)"

text \<open>Operations on the entries: removing one key, removing a key and everything below
  it, storing a node, testing for entries strictly below a key, and moving a key from
  below one directory to below another.\<close>

definition erase :: "key \<Rightarrow> entries \<Rightarrow> entries" where
  "erase k es = filter (\<lambda>(k', n). k' \<noteq> k) es"

definition erase_tree :: "key \<Rightarrow> entries \<Rightarrow> entries" where
  "erase_tree k es = filter (\<lambda>(k', n). \<not> prefix k k') es"

definition put :: "key \<Rightarrow> node \<Rightarrow> entries \<Rightarrow> entries" where
  "put k n es = (k, n) # erase k es"

definition has_children :: "entries \<Rightarrow> key \<Rightarrow> bool" where
  "has_children es k = list_ex (\<lambda>(k', n). strict_prefix k k') es"

definition rebase :: "key \<Rightarrow> key \<Rightarrow> key \<Rightarrow> key" where
  "rebase f t k = t @ drop (length f) k"

definition move_entries :: "key \<Rightarrow> key \<Rightarrow> entries \<Rightarrow> entries" where
  "move_entries f t es = map (\<lambda>(k, n). if prefix f k then (rebase f t k, n) else (k, n)) es"

definition fs_throw :: "errc \<Rightarrow> entries \<Rightarrow> (exn + unit) \<times> entries" where
  "fs_throw c es = (Inl (filesystem_error c), es)"

text \<open>A recorded call: the call is appended to \<open>calls\<close>; if it is faulted it throws,
  otherwise its effect on the entries decides the result.\<close>

definition invoke ::
  "disk_call \<Rightarrow> (entries \<Rightarrow> (exn + unit) \<times> entries) \<Rightarrow> disk \<Rightarrow> (exn + unit) \<times> disk" where
  "invoke c f d =
     (let d1 = d\<lparr>calls := calls d @ [c]\<rparr> in
      case faults d c of
        Some e \<Rightarrow> (Inl e, d1)
      | None \<Rightarrow> (case f (entries d) of (r, es) \<Rightarrow> (r, d1\<lparr>entries := es\<rparr>)))"

text \<open>Modelled from the spec: \<^verbatim>\<open>exists\<close>, a query with no effect. A path that ends
  in a slash exists only as a directory.\<close>

definition ends_with_slash :: "string \<Rightarrow> bool" where
  "ends_with_slash p = (p \<noteq> [] \<and> last p = CHR ''/'')"

definition disk_exists :: "disk \<Rightarrow> string \<Rightarrow> bool" where
  "disk_exists d p =
     (case lookup (entries d) (components p) of
        None \<Rightarrow> False
      | Some Dir \<Rightarrow> True
      | Some (File c) \<Rightarrow> \<not> ends_with_slash p)"

text \<open>Modelled from the spec: the parent of a key is a directory. The parent of a
  top-level key is the root.\<close>

definition parent_is_dir :: "entries \<Rightarrow> key \<Rightarrow> bool" where
  "parent_is_dir es k = (lookup es (butlast k) = Some Dir)"

text \<open>Modelled from the spec: the effect of \<^verbatim>\<open>removeFile\<close> on the entries. It removes a
  regular file and fails on a missing path and on a directory.\<close>

definition remove_file_e :: "string \<Rightarrow> entries \<Rightarrow> (exn + unit) \<times> entries" where
  "remove_file_e p es =
     (case lookup es (components p) of
        None \<Rightarrow> fs_throw no_such_file_or_directory es
      | Some Dir \<Rightarrow> fs_throw is_a_directory es
      | Some (File c) \<Rightarrow> (Inr (), erase (components p) es))"

text \<open>Modelled from the spec: the effect of \<^verbatim>\<open>removeFileIfExists\<close> on the entries: as
  \<^verbatim>\<open>removeFile\<close>, but a missing path is not a failure.\<close>

definition remove_file_if_exists_e :: "string \<Rightarrow> entries \<Rightarrow> (exn + unit) \<times> entries" where
  "remove_file_if_exists_e p es =
     (case lookup es (components p) of
        None \<Rightarrow> (Inr (), es)
      | Some Dir \<Rightarrow> fs_throw is_a_directory es
      | Some (File c) \<Rightarrow> (Inr (), erase (components p) es))"

text \<open>Modelled from the spec: the effect of \<^verbatim>\<open>removeSharedFiles\<close> on the entries. A batch
  is removed request by request, a request with \<^verbatim>\<open>if_exists\<close> tolerating a missing file;
  the first failure stops it and keeps what was removed so far.\<close>

fun remove_batch :: "RemoveFileRequest list \<Rightarrow> entries \<Rightarrow> (exn + unit) \<times> entries" where
  "remove_batch [] es = (Inr (), es)"
| "remove_batch (r # rs) es =
     (case (if if_exists r then remove_file_if_exists_e (path r) es
            else remove_file_e (path r) es) of
        (Inl e, es') \<Rightarrow> (Inl e, es')
      | (Inr u, es') \<Rightarrow> remove_batch rs es')"

text \<open>Modelled from the spec: \<^verbatim>\<open>removeFile\<close>, \<^verbatim>\<open>removeFileIfExists\<close> and
  \<^verbatim>\<open>removeSharedFiles\<close> as recorded calls.\<close>

definition disk_removeFile :: "string \<Rightarrow> disk \<Rightarrow> (exn + unit) \<times> disk" where
  "disk_removeFile p = invoke (RemoveFile p) (remove_file_e p)"

definition disk_removeFileIfExists :: "string \<Rightarrow> disk \<Rightarrow> (exn + unit) \<times> disk" where
  "disk_removeFileIfExists p = invoke (RemoveFileIfExists p) (remove_file_if_exists_e p)"

definition disk_removeSharedFiles ::
  "RemoveFileRequest list \<Rightarrow> bool \<Rightarrow> string set \<Rightarrow> disk \<Rightarrow> (exn + unit) \<times> disk" where
  "disk_removeSharedFiles batch keep_shared names =
     invoke (RemoveSharedFiles batch keep_shared names) (remove_batch batch)"

text \<open>Modelled from the spec: \<^verbatim>\<open>removeSharedRecursive\<close> and \<^verbatim>\<open>removeRecursive\<close> remove
  the entry at the path and everything below it; a missing path is not a failure.\<close>

definition disk_removeSharedRecursive ::
  "string \<Rightarrow> bool \<Rightarrow> string set \<Rightarrow> disk \<Rightarrow> (exn + unit) \<times> disk" where
  "disk_removeSharedRecursive p keep_shared names =
     invoke (RemoveSharedRecursive p keep_shared names)
       (\<lambda>es. (Inr (), erase_tree (components p) es))"

definition disk_removeRecursive :: "string \<Rightarrow> disk \<Rightarrow> (exn + unit) \<times> disk" where
  "disk_removeRecursive p =
     invoke (RemoveRecursive p) (\<lambda>es. (Inr (), erase_tree (components p) es))"

text \<open>Modelled from the spec: \<^verbatim>\<open>removeDirectory\<close> removes an empty directory and fails on a
  missing path, on a regular file and on a directory that has entries below it.\<close>

definition disk_removeDirectory :: "string \<Rightarrow> disk \<Rightarrow> (exn + unit) \<times> disk" where
  "disk_removeDirectory p =
     invoke (RemoveDirectory p)
       (\<lambda>es. case lookup es (components p) of
                None \<Rightarrow> fs_throw no_such_file_or_directory es
              | Some (File c) \<Rightarrow> fs_throw not_a_directory es
              | Some Dir \<Rightarrow>
                  if components p = [] then fs_throw invalid_argument es
                  else if has_children es (components p) then fs_throw directory_not_empty es
                  else (Inr (), erase (components p) es))"

text \<open>Modelled from the spec: \<^verbatim>\<open>moveDirectory\<close> moves the entry at the source and
  everything below it to the destination. A missing source and a missing parent
  directory of the destination fail with \<^verbatim>\<open>no_such_file_or_directory\<close>, the error
  \<^verbatim>\<open>remove\<close> expects; an existing destination and a destination nested with the source
  fail.\<close>

definition disk_moveDirectory :: "string \<Rightarrow> string \<Rightarrow> disk \<Rightarrow> (exn + unit) \<times> disk" where
  "disk_moveDirectory from_path to_path =
     invoke (MoveDirectory from_path to_path)
       (\<lambda>es. let f = components from_path; t = components to_path in
              if lookup es f = None then fs_throw no_such_file_or_directory es
              else if lookup es t \<noteq> None \<or> prefix f t \<or> prefix t f
                then fs_throw invalid_argument es
              else if \<not> parent_is_dir es t then fs_throw no_such_file_or_directory es
              else (Inr (), move_entries f t es))"

text \<open>Modelled from the spec: \<^verbatim>\<open>writeFile\<close> together with the write, finalize and sync of
  the buffer it returns: the file gets the content (after the old content in append
  mode); a directory at the path and a missing parent directory are failures.\<close>

definition disk_writeFile :: "string \<Rightarrow> WriteMode \<Rightarrow> string \<Rightarrow> disk \<Rightarrow> (exn + unit) \<times> disk" where
  "disk_writeFile p mode content =
     invoke (WriteFile p mode content)
       (\<lambda>es. if \<not> parent_is_dir es (components p)
                then fs_throw no_such_file_or_directory es
              else case lookup es (components p) of
                Some Dir \<Rightarrow> fs_throw is_a_directory es
              | Some (File old) \<Rightarrow>
                  (Inr (), put (components p)
                             (File (if mode = Append then old @ content else content)) es)
              | None \<Rightarrow> (Inr (), put (components p) (File content) es))"

text \<open>Modelled from the spec: \<^verbatim>\<open>replaceFile\<close> moves a regular file onto the destination,
  replacing a regular file there; the parent directory of the destination must exist.\<close>

definition disk_replaceFile :: "string \<Rightarrow> string \<Rightarrow> disk \<Rightarrow> (exn + unit) \<times> disk" where
  "disk_replaceFile from_path to_path =
     invoke (ReplaceFile from_path to_path)
       (\<lambda>es. case lookup es (components from_path) of
                None \<Rightarrow> fs_throw no_such_file_or_directory es
              | Some Dir \<Rightarrow> fs_throw is_a_directory es
              | Some (File c) \<Rightarrow>
                  if lookup es (components to_path) = Some Dir then fs_throw is_a_directory es
                  else if \<not> parent_is_dir es (components to_path)
                    then fs_throw no_such_file_or_directory es
                  else (Inr (), put (components to_path) (File c)
                                  (erase (components from_path) es)))"

text \<open>Modelled from the spec: \<^verbatim>\<open>createFile\<close> creates an empty file in an existing
  directory; the source expects it to fail when the path exists.\<close>

definition disk_createFile :: "string \<Rightarrow> disk \<Rightarrow> (exn + unit) \<times> disk" where
  "disk_createFile p =
     invoke (CreateFile p)
       (\<lambda>es. case lookup es (components p) of
                None \<Rightarrow>
                  if parent_is_dir es (components p)
                  then (Inr (), put (components p) (File []) es)
                  else fs_throw no_such_file_or_directory es
              | Some n \<Rightarrow> fs_throw file_exists es)"

text \<open>Modelled from the spec: \<^verbatim>\<open>createDirectories\<close> creates the directory and its missing
  ancestors and fails when one of them is a regular file.\<close>

definition is_file_at :: "entries \<Rightarrow> key \<Rightarrow> bool" where
  "is_file_at es k = (case lookup es k of Some (File c) \<Rightarrow> True | _ \<Rightarrow> False)"

definition disk_createDirectories :: "string \<Rightarrow> disk \<Rightarrow> (exn + unit) \<times> disk" where
  "disk_createDirectories p =
     invoke (CreateDirectories p)
       (\<lambda>es. if list_ex (is_file_at es) (prefixes (components p)) then fs_throw not_a_directory es
              else (Inr (), map (\<lambda>k. (k, Dir))
                              (filter (\<lambda>k. lookup es k = None) (prefixes (components p))) @ es))"

text \<open>Modelled from the spec: \<^verbatim>\<open>copy\<close> copies the entry at the source and everything below
  it to the same relative paths below the destination, over what is there.\<close>

definition disk_copy :: "string \<Rightarrow> string \<Rightarrow> disk \<Rightarrow> (exn + unit) \<times> disk" where
  "disk_copy from_path to_path =
     invoke (Copy from_path to_path)
       (\<lambda>es. let f = components from_path; t = components to_path in
              if lookup es f = None then fs_throw no_such_file_or_directory es
              else (Inr (), map (\<lambda>(k, n). (rebase f t k, n))
                              (filter (\<lambda>(k, n). prefix f k) es) @ es))"

text \<open>Modelled from the spec: \<^verbatim>\<open>listFiles\<close>; the source uses the list only for the size it
  logs, so the call is recorded and the list is not returned. It fails on a path that is
  not a directory.\<close>

definition disk_listFiles :: "string \<Rightarrow> disk \<Rightarrow> (exn + unit) \<times> disk" where
  "disk_listFiles p =
     invoke (ListFiles p)
       (\<lambda>es. if lookup es (components p) = Some Dir then (Inr (), es)
              else fs_throw not_a_directory es)"

text \<open>Modelled from the spec: \<^verbatim>\<open>setLastModified\<close>. Time stamps are not part of the entries:
  the call is recorded with the time and fails on a missing path.\<close>

definition disk_setLastModified :: "string \<Rightarrow> nat \<Rightarrow> disk \<Rightarrow> (exn + unit) \<times> disk" where
  "disk_setLastModified p t =
     invoke (SetLastModified p t)
       (\<lambda>es. if lookup es (components p) = None then fs_throw no_such_file_or_directory es
              else (Inr (), es))"

text \<open>Modelled from the spec: \<^verbatim>\<open>getDirectorySyncGuard\<close>, recorded as a call.\<close>

definition disk_getDirectorySyncGuard :: "string \<Rightarrow> disk \<Rightarrow> (exn + unit) \<times> disk" where
  "disk_getDirectorySyncGuard p = invoke (GetDirectorySyncGuard p) (\<lambda>es. (Inr (), es))"

text \<open>Modelled from the spec: \<^verbatim>\<open>getFileSize\<close> and \<^verbatim>\<open>readFile\<close> to the end of the file, as
  \<^verbatim>\<open>openForReading\<close> and its callers use them, and \<^verbatim>\<open>getLastModified\<close>. Reads do not change
  the disk and are not recorded; they can be faulted.\<close>

definition disk_readFile :: "disk \<Rightarrow> string \<Rightarrow> exn + string" where
  "disk_readFile d p =
     (case faults d (ReadFile p) of
        Some e \<Rightarrow> Inl e
      | None \<Rightarrow> (case lookup (entries d) (components p) of
                   None \<Rightarrow> Inl (filesystem_error no_such_file_or_directory)
                 | Some Dir \<Rightarrow> Inl (filesystem_error is_a_directory)
                 | Some (File c) \<Rightarrow> Inr c))"

definition disk_getLastModified :: "disk \<Rightarrow> string \<Rightarrow> exn + unit" where
  "disk_getLastModified d p =
     (case faults d (GetLastModified p) of
        Some e \<Rightarrow> Inl e
      | None \<Rightarrow> (if lookup (entries d) (components p) = None
                 then Inl (filesystem_error no_such_file_or_directory) else Inr ()))"

section \<open>The part storage\<close>

record DataPartStorageOnDisk =
  root_path :: string
  part_dir :: string

definition getFullRelativePath :: "DataPartStorageOnDisk \<Rightarrow> string" where
  "getFullRelativePath s = path_slash (path_slash (root_path s) (part_dir s)) []"

definition exists :: "disk \<Rightarrow> DataPartStorageOnDisk \<Rightarrow> bool" where
  "exists d s = disk_exists d (path_slash (root_path s) (part_dir s))"

subsection \<open>getRelativePathForPrefix\<close>

definition digit :: "nat \<Rightarrow> char" where
  "digit n = ''0123456789'' ! n"

fun toString :: "nat \<Rightarrow> string" where
  "toString n = (if n < 10 then [digit n] else toString (n div 10) @ [digit (n mod 10)])"

declare toString.simps [simp del]

definition candidate :: "string \<Rightarrow> string \<Rightarrow> nat \<Rightarrow> string" where
  "candidate pfx dir try_no =
     (if pfx = [] then [] else pfx @ ''_'') @ dir
       @ (if try_no \<noteq> 0 then ''_try'' @ toString try_no else [])"

text \<open>The loop body of \<^verbatim>\<open>getRelativePathForPrefix\<close>; the warning it logs on a collision
  is not modelled.\<close>

function probe :: "disk \<Rightarrow> string \<Rightarrow> string \<Rightarrow> string \<Rightarrow> string \<Rightarrow> nat \<Rightarrow> string" where
  "probe d full_relative_path pfx dir res try_no =
     (if try_no < 10 then
        (let res' = candidate pfx dir try_no in
         if \<not> disk_exists d (path_slash full_relative_path res') then res'
         else probe d full_relative_path pfx dir res' (Suc try_no))
      else res)"
  by pat_completeness auto
termination
  by (relation "measure (\<lambda>(d, frp, pfx, dir, res, try_no). 10 - try_no)") auto

declare probe.simps [simp del]

definition getRelativePathForPrefix ::
  "disk \<Rightarrow> DataPartStorageOnDisk \<Rightarrow> string \<Rightarrow> bool \<Rightarrow> string" where
  "getRelativePathForPrefix d s pfx detached =
     (let full_relative_path =
            (if detached then path_slash (root_path s) ''detached'' else root_path s)
      in probe d full_relative_path pfx (part_dir s) [] 0)"

text \<open>Sequencing of calls that may throw: the first exception ends the sequence and
  keeps the disk as the failing call left it.\<close>

definition and_then ::
  "(exn + 'a) \<times> disk \<Rightarrow> ('a \<Rightarrow> disk \<Rightarrow> (exn + 'b) \<times> disk) \<Rightarrow> (exn + 'b) \<times> disk" where
  "and_then m f = (case m of (Inl e, d) \<Rightarrow> (Inl e, d) | (Inr x, d) \<Rightarrow> f x d)"

subsection \<open>remove and clearDirectory\<close>

record Checksum =
  file_size :: "64 word"
  file_hash :: "128 word"

text \<open>\<^verbatim>\<open>checksums.files\<close> is an ordered map; it is kept as the list of its pairs in
  iteration order.\<close>

record MergeTreeDataPartChecksums =
  files :: "(string \<times> Checksum) list"

record ProjectionChecksums =
  name :: string
  checksums :: MergeTreeDataPartChecksums

definition clearDirectory_request ::
  "string \<Rightarrow> MergeTreeDataPartChecksums \<Rightarrow> string set \<Rightarrow> bool \<Rightarrow> RemoveFileRequest list" where
  "clearDirectory_request dir cs skip_directories is_projection =
     map (\<lambda>file. RemoveFileRequest (path_slash dir file) False)
       (filter (\<lambda>file. file \<notin> skip_directories) (map fst (files cs)))
     @ map (\<lambda>file. RemoveFileRequest (path_slash dir file) False)
         [''checksums.txt'', ''columns.txt'']
     @ [RemoveFileRequest (path_slash dir ''default_compression_codec.txt'') True,
        RemoveFileRequest (path_slash dir ''delete-on-destroy.txt'') True]
     @ (if \<not> is_projection
        then [RemoveFileRequest (path_slash dir ''txn_version.txt'') True] else [])"

definition clearDirectory ::
  "string \<Rightarrow> bool \<Rightarrow> string set \<Rightarrow> MergeTreeDataPartChecksums \<Rightarrow> string set \<Rightarrow> bool
     \<Rightarrow> disk \<Rightarrow> (exn + unit) \<times> disk" where
  "clearDirectory dir can_remove_shared_data names_not_to_remove cs skip_directories
       is_projection d =
     (if files cs = [] then
        disk_removeSharedRecursive (path_slash dir []) (\<not> can_remove_shared_data)
          names_not_to_remove d
      else
        (case and_then
                (disk_removeSharedFiles
                   (clearDirectory_request dir cs skip_directories is_projection)
                   (\<not> can_remove_shared_data) names_not_to_remove d)
                (\<lambda>u. disk_removeDirectory dir) of
           (Inl e, d1) \<Rightarrow>
             disk_removeSharedRecursive (path_slash dir []) (\<not> can_remove_shared_data)
               names_not_to_remove d1
         | (Inr u, d1) \<Rightarrow> (Inr (), d1)))"

text \<open>The loop of \<^verbatim>\<open>remove\<close> over the projections; it returns the set of projection
  directory names it recorded.\<close>

fun clear_projections ::
  "string \<Rightarrow> bool \<Rightarrow> string set \<Rightarrow> ProjectionChecksums list \<Rightarrow> string set
     \<Rightarrow> disk \<Rightarrow> (exn + string set) \<times> disk" where
  "clear_projections to_p can_remove_shared_data names_not_to_remove []
       projection_directories d = (Inr projection_directories, d)"
| "clear_projections to_p can_remove_shared_data names_not_to_remove (projection # rest)
       projection_directories d =
     (let proj_dir_name = name projection @ ''.proj'' in
      and_then
        (clearDirectory (path_slash to_p proj_dir_name) can_remove_shared_data
           names_not_to_remove (checksums projection) {} True d)
        (\<lambda>u. clear_projections to_p can_remove_shared_data names_not_to_remove rest
                (insert proj_dir_name projection_directories)))"

text \<open>\<^verbatim>\<open>DataPartStorageOnDisk::remove\<close>; HOL has a constant of that name, so the
  function is \<open>remove_part\<close> here. The messages it logs are not modelled.\<close>

definition remove_part ::
  "DataPartStorageOnDisk \<Rightarrow> bool \<Rightarrow> string set \<Rightarrow> MergeTreeDataPartChecksums
     \<Rightarrow> ProjectionChecksums list \<Rightarrow> disk \<Rightarrow> (exn + unit) \<times> disk" where
  "remove_part s can_remove_shared_data names_not_to_remove cs projections d =
     (let from_p = path_slash (root_path s) (part_dir s);
          to_p = path_slash (root_path s) (''delete_tmp_'' @ part_dir s)
      in
      and_then
        (if disk_exists d to_p
         then disk_removeSharedRecursive (path_slash to_p []) (\<not> can_remove_shared_data)
                names_not_to_remove d
         else (Inr (), d))
        (\<lambda>u d0.
           case disk_moveDirectory from_p to_p d0 of
             (Inl e, d1) \<Rightarrow>
               if e = filesystem_error no_such_file_or_directory then (Inr (), d1)
               else (Inl e, d1)
           | (Inr u, d1) \<Rightarrow>
               and_then
                 (clear_projections to_p can_remove_shared_data names_not_to_remove
                    projections {} d1)
                 (\<lambda>projection_directories.
                    clearDirectory to_p can_remove_shared_data names_not_to_remove cs
                      projection_directories False)))"

subsection \<open>Version metadata\<close>

text \<open>
  The transaction id and commit sequence number types, the four sentinel values and the
  text format of the version file are declared outside the modelled sources. The types
  are type parameters, the sentinels a record passed to \<^verbatim>\<open>loadVersionMetadata\<close>, and
  \<^verbatim>\<open>VersionMetadata::write\<close> and \<^verbatim>\<open>VersionMetadata::read\<close> are function parameters of the
  two functions that call them (a model of both follows below):
  \<open>write_version\<close> gives the text written for a value, \<open>read_version\<close> takes the text and
  the object it reads into and returns that object as it left it, with the exception if
  it threw.
\<close>

record ('tid, 'csn) VersionMetadata =
  creation_tid :: 'tid
  removal_tid :: 'tid
  creation_csn :: 'csn
  removal_csn :: 'csn

record ('tid, 'csn) Tx =
  PrehistoricTID :: 'tid
  DummyTID :: 'tid
  PrehistoricCSN :: 'csn
  RolledBackCSN :: 'csn

text \<open>Modelled from the spec: \<^verbatim>\<open>VersionMetadata::setCreationTID\<close>, defined outside the
  modelled sources. The spec gives the creation transaction id as a field of the version
  metadata; the setter assigns it.\<close>

definition setCreationTID ::
  "'tid \<Rightarrow> ('tid, 'csn) VersionMetadata \<Rightarrow> ('tid, 'csn) VersionMetadata" where
  "setCreationTID tid version = version\<lparr>creation_tid := tid\<rparr>"

definition version_path :: "DataPartStorageOnDisk \<Rightarrow> string" where
  "version_path s = path_slash (path_slash (root_path s) (part_dir s)) ''txn_version.txt''"

definition writeVersionMetadata ::
  "(('tid, 'csn) VersionMetadata \<Rightarrow> string) \<Rightarrow> DataPartStorageOnDisk
     \<Rightarrow> ('tid, 'csn) VersionMetadata \<Rightarrow> bool \<Rightarrow> disk \<Rightarrow> (exn + unit) \<times> disk" where
  "writeVersionMetadata write_version s version fsync_part_dir d =
     (let p = version_path s in
      case and_then (disk_writeFile (p @ ''.tmp'') Rewrite (write_version version) d)
             (\<lambda>u d1. and_then
                (if fsync_part_dir then disk_getDirectorySyncGuard (getFullRelativePath s) d1
                 else (Inr (), d1))
                (\<lambda>u. disk_replaceFile (p @ ''.tmp'') p)) of
        (Inl e, d2) \<Rightarrow>
          (Inl e, if disk_exists d2 (p @ ''.tmp'')
                  then snd (disk_removeFile (p @ ''.tmp'') d2) else d2)
      | (Inr u, d2) \<Rightarrow> (Inr (), d2))"

text \<open>The lambda \<^verbatim>\<open>remove_tmp_file\<close> of \<^verbatim>\<open>loadVersionMetadata\<close>: it reads the file's
  time stamp and content for the warning it logs, then removes the file.\<close>

definition remove_tmp_file :: "string \<Rightarrow> disk \<Rightarrow> (exn + unit) \<times> disk" where
  "remove_tmp_file tmp_version_file_name d =
     (case disk_getLastModified d tmp_version_file_name of
        Inl e \<Rightarrow> (Inl e, d)
      | Inr u \<Rightarrow>
          (case disk_readFile d tmp_version_file_name of
             Inl e \<Rightarrow> (Inl e, d)
           | Inr content \<Rightarrow> disk_removeFile tmp_version_file_name d))"

definition loadVersionMetadata ::
  "('tid, 'csn) Tx
     \<Rightarrow> (string \<Rightarrow> ('tid, 'csn) VersionMetadata \<Rightarrow> (exn + unit) \<times> ('tid, 'csn) VersionMetadata)
     \<Rightarrow> DataPartStorageOnDisk \<Rightarrow> ('tid, 'csn) VersionMetadata \<Rightarrow> disk
     \<Rightarrow> (exn + unit) \<times> ('tid, 'csn) VersionMetadata \<times> disk" where
  "loadVersionMetadata tx read_version s version d =
     (let version_file_name = version_path s;
          tmp_version_file_name = version_file_name @ ''.tmp''
      in
      if disk_exists d version_file_name then
        (case disk_readFile d version_file_name of
           Inl e \<Rightarrow> (Inl e, version, d)
         | Inr buf \<Rightarrow>
             (case read_version buf version of
                (Inl e, version1) \<Rightarrow> (Inl e, version1, d)
              | (Inr u, version1) \<Rightarrow>
                  if disk_exists d tmp_version_file_name
                  then (case remove_tmp_file tmp_version_file_name d of
                          (r, d1) \<Rightarrow> (r, version1, d1))
                  else (Inr (), version1, d)))
      else if \<not> disk_exists d tmp_version_file_name then
        (Inr (),
         (setCreationTID (PrehistoricTID tx) version)\<lparr>creation_csn := PrehistoricCSN tx\<rparr>,
         d)
      else
        (case remove_tmp_file tmp_version_file_name d of
           (r, d1) \<Rightarrow>
             (r, (setCreationTID (DummyTID tx) version)\<lparr>creation_csn := RolledBackCSN tx\<rparr>,
              d1)))"

subsection \<open>The text of the version file\<close>

text \<open>
  Modelled from the spec: \<^verbatim>\<open>VersionMetadata::write\<close> and \<^verbatim>\<open>VersionMetadata::read\<close>, which
  are defined outside the modelled sources. The spec describes \<^verbatim>\<open>txn_version.txt\<close> as
  append-structured: a creation record, then records for the removal transaction id and
  commit sequence number, a later record replacing what an earlier one set. In the model
  transaction ids and commit sequence numbers are natural numbers and a record is a line
  \<^verbatim>\<open>field: decimal\<close>. The writer emits the creation transaction id, the creation commit
  sequence number and the two removal fields. The reader splits the text into lines,
  applies the records in order to the object it reads into, and throws at the first line
  that is not a record.
\<close>

definition newline :: char where
  "newline = CHR 0x0A"

text \<open>The value of a decimal digit: its position among the digits \<^verbatim>\<open>toString\<close> emits.\<close>

definition digit_value :: "char \<Rightarrow> nat option" where
  "digit_value c = find (\<lambda>i. digit i = c) [0..<10]"

fun parse_digits :: "string \<Rightarrow> nat \<Rightarrow> nat option" where
  "parse_digits [] acc = Some acc"
| "parse_digits (c # cs) acc =
     (case digit_value c of
        None \<Rightarrow> None
      | Some v \<Rightarrow> parse_digits cs (10 * acc + v))"

definition parse_number :: "string \<Rightarrow> nat option" where
  "parse_number s = (if s = [] then None else parse_digits s 0)"

fun strip_prefix :: "string \<Rightarrow> string \<Rightarrow> string option" where
  "strip_prefix [] s = Some s"
| "strip_prefix (p # ps) [] = None"
| "strip_prefix (p # ps) (c # cs) = (if p = c then strip_prefix ps cs else None)"

text \<open>The lines of a text; \<open>cur\<close> holds the characters of the current line, last first.\<close>

fun split_lines :: "string \<Rightarrow> string \<Rightarrow> string list" where
  "split_lines cur [] = (if cur = [] then [] else [rev cur])"
| "split_lines cur (c # cs) =
     (if c = newline then rev cur # split_lines [] cs else split_lines (c # cur) cs)"

definition version_record :: "string \<Rightarrow> nat \<Rightarrow> string" where
  "version_record field n = field @ '': '' @ toString n @ [newline]"

definition VersionMetadata_write :: "(nat, nat) VersionMetadata \<Rightarrow> string" where
  "VersionMetadata_write v =
     version_record ''creation_tid'' (creation_tid v)
     @ version_record ''creation_csn'' (creation_csn v)
     @ version_record ''removal_tid'' (removal_tid v)
     @ version_record ''removal_csn'' (removal_csn v)"

definition read_number ::
  "string \<Rightarrow> (nat \<Rightarrow> (nat, nat) VersionMetadata) \<Rightarrow> (nat, nat) VersionMetadata
     \<Rightarrow> (exn + unit) \<times> (nat, nat) VersionMetadata" where
  "read_number x upd v =
     (case parse_number x of
        None \<Rightarrow> (Inl (Exception CANNOT_PARSE_TEXT), v)
      | Some n \<Rightarrow> (Inr (), upd n))"

definition read_record ::
  "string \<Rightarrow> (nat, nat) VersionMetadata \<Rightarrow> (exn + unit) \<times> (nat, nat) VersionMetadata" where
  "read_record l v =
     (case strip_prefix ''creation_tid: '' l of
        Some x \<Rightarrow> read_number x (\<lambda>n. v\<lparr>creation_tid := n\<rparr>) v
      | None \<Rightarrow>
     (case strip_prefix ''creation_csn: '' l of
        Some x \<Rightarrow> read_number x (\<lambda>n. v\<lparr>creation_csn := n\<rparr>) v
      | None \<Rightarrow>
     (case strip_prefix ''removal_tid: '' l of
        Some x \<Rightarrow> read_number x (\<lambda>n. v\<lparr>removal_tid := n\<rparr>) v
      | None \<Rightarrow>
     (case strip_prefix ''removal_csn: '' l of
        Some x \<Rightarrow> read_number x (\<lambda>n. v\<lparr>removal_csn := n\<rparr>) v
      | None \<Rightarrow> (Inl (Exception CANNOT_PARSE_TEXT), v)))))"

fun read_records ::
  "string list \<Rightarrow> (nat, nat) VersionMetadata
     \<Rightarrow> (exn + unit) \<times> (nat, nat) VersionMetadata" where
  "read_records [] v = (Inr (), v)"
| "read_records (l # ls) v =
     (case read_record l v of
        (Inl e, v1) \<Rightarrow> (Inl e, v1)
      | (Inr u, v1) \<Rightarrow> read_records ls v1)"

definition VersionMetadata_read ::
  "string \<Rightarrow> (nat, nat) VersionMetadata \<Rightarrow> (exn + unit) \<times> (nat, nat) VersionMetadata" where
  "VersionMetadata_read buf v = read_records (split_lines [] buf) v"

subsection \<open>writeDeleteOnDestroyMarker\<close>

text \<open>The handler is \<^verbatim>\<open>catch (Poco::Exception & e)\<close>: it logs and returns; an exception
  of any other type leaves the function.\<close>

definition writeDeleteOnDestroyMarker ::
  "DataPartStorageOnDisk \<Rightarrow> disk \<Rightarrow> (exn + unit) \<times> disk" where
  "writeDeleteOnDestroyMarker s d =
     (let marker_path =
            path_slash (path_slash (root_path s) (part_dir s)) ''delete-on-destroy.txt''
      in case disk_createFile marker_path d of
           (Inl e, d1) \<Rightarrow> if is_Poco_Exception e then (Inr (), d1) else (Inl e, d1)
         | (Inr u, d1) \<Rightarrow> (Inr (), d1))"

subsection \<open>rename\<close>

text \<open>\<open>now\<close> is the value of \<^verbatim>\<open>time(nullptr)\<close>. The result carries the storage object,
  whose \<^verbatim>\<open>root_path\<close> and \<^verbatim>\<open>part_dir\<close> the function rewrites after the move.\<close>

definition rename ::
  "DataPartStorageOnDisk \<Rightarrow> string \<Rightarrow> bool \<Rightarrow> bool \<Rightarrow> nat \<Rightarrow> disk
     \<Rightarrow> (exn + unit) \<times> DataPartStorageOnDisk \<times> disk" where
  "rename s new_relative_path remove_new_dir_if_exists fsync_part_dir now d =
     (if \<not> exists d s then (Inl (Exception FILE_DOESNT_EXIST), s, d)
      else
        let new_path = path_slash (root_path s) new_relative_path in
        if \<not> has_filename new_path then (Inl (Exception LOGICAL_ERROR), s, d)
        else
          let to_p = path_slash (path_slash (root_path s) new_relative_path) [] in
          case (if disk_exists d to_p then
                  (if remove_new_dir_if_exists
                   then and_then (disk_listFiles to_p d) (\<lambda>u. disk_removeRecursive to_p)
                   else (Inl (Exception DIRECTORY_ALREADY_EXISTS), d))
                else (Inr (), d)) of
            (Inl e, d1) \<Rightarrow> (Inl e, s, d1)
          | (Inr u, d1) \<Rightarrow>
              let from_p = getFullRelativePath s in
              (case and_then (disk_setLastModified from_p now d1)
                      (\<lambda>u. disk_moveDirectory from_p to_p) of
                 (Inl e, d2) \<Rightarrow> (Inl e, s, d2)
               | (Inr u, d2) \<Rightarrow>
                   let s' = s\<lparr>part_dir := filename new_path,
                              root_path := remove_filename new_path\<rparr> in
                   if fsync_part_dir
                   then (case disk_getDirectorySyncGuard (getFullRelativePath s') d2 of
                           (r, d3) \<Rightarrow> (r, s', d3))
                   else (Inr (), s', d2)))"

subsection \<open>clone\<close>

definition clone ::
  "DataPartStorageOnDisk \<Rightarrow> string \<Rightarrow> string \<Rightarrow> disk
     \<Rightarrow> (exn + DataPartStorageOnDisk) \<times> disk" where
  "clone s to_p dir_path d =
     (let path_to_clone = path_slash (path_slash to_p dir_path) [] in
      and_then
        (if disk_exists d path_to_clone then disk_removeRecursive path_to_clone d
         else (Inr (), d))
        (\<lambda>u d1. and_then (disk_createDirectories to_p d1)
           (\<lambda>u d2. and_then (disk_copy (getFullRelativePath s) path_to_clone d2)
              (\<lambda>u d3. and_then
                 (disk_removeFileIfExists (path_slash path_to_clone ''delete-on-destroy.txt'') d3)
                 (\<lambda>u d4. (Inr \<lparr>root_path = to_p, part_dir = dir_path\<rparr>, d4))))))"

section \<open>Notions used in the statements\<close>

text \<open>The suffixes \<^verbatim>\<open>getRelativePathForPrefix\<close> appends in its ten attempts.\<close>

definition detach_suffixes :: "string list" where
  "detach_suffixes = ['''', ''_try1'', ''_try2'', ''_try3'', ''_try4'', ''_try5'',
                      ''_try6'', ''_try7'', ''_try8'', ''_try9'']"

text \<open>No entry of the disk lies at or below the key \<open>p\<close>.\<close>

definition none_under :: "entries \<Rightarrow> key \<Rightarrow> bool" where
  "none_under es p = (\<forall>k \<in> fst ` set es. \<not> prefix p k)"

text \<open>The entries form a tree: the parent of every entry is a directory.\<close>

definition tree_like :: "entries \<Rightarrow> bool" where
  "tree_like es = list_all (\<lambda>(k, n). parent_is_dir es k) es"

text \<open>The file set of a directory: the relative keys of everything at or below it.\<close>

definition file_set :: "disk \<Rightarrow> string \<Rightarrow> key set" where
  "file_set d p = {k. lookup (entries d) (components p @ k) \<noteq> None}"

section \<open>Example values\<close>

text \<open>The part of the spec's example scenario: two data files, the two mandatory
  metadata files and the delete-on-destroy marker.\<close>

definition ex_disk :: disk where
  "ex_disk = \<lparr>entries =
      [([''data''], Dir),
       ([''data'', ''all_1_1_0''], Dir),
       ([''data'', ''all_1_1_0'', ''data.bin''], File ''abc''),
       ([''data'', ''all_1_1_0'', ''data.mrk''], File ''m''),
       ([''data'', ''all_1_1_0'', ''checksums.txt''], File ''c''),
       ([''data'', ''all_1_1_0'', ''columns.txt''], File ''c''),
       ([''data'', ''all_1_1_0'', ''delete-on-destroy.txt''], File [])],
     calls = [], faults = (\<lambda>c. None)\<rparr>"

definition ex_part :: DataPartStorageOnDisk where
  "ex_part = \<lparr>root_path = ''data'', part_dir = ''all_1_1_0''\<rparr>"

definition ex_checksums :: MergeTreeDataPartChecksums where
  "ex_checksums = \<lparr>files =
      [(''data.bin'', \<lparr>file_size = 100, file_hash = 1\<rparr>),
       (''data.mrk'', \<lparr>file_size = 8, file_hash = 2\<rparr>)]\<rparr>"

text \<open>A manifest that names a file the example part does not have.\<close>

definition ex_wrong_checksums :: MergeTreeDataPartChecksums where
  "ex_wrong_checksums = \<lparr>files =
      [(''data.bin'', \<lparr>file_size = 100, file_hash = 1\<rparr>),
       (''gone.bin'', \<lparr>file_size = 8, file_hash = 2\<rparr>)]\<rparr>"

definition ex_missing_part :: DataPartStorageOnDisk where
  "ex_missing_part = \<lparr>root_path = ''data'', part_dir = ''all_2_2_0''\<rparr>"

text \<open>A disk on which one given call fails with a given exception.\<close>

definition faulty_disk :: "disk_call \<Rightarrow> exn \<Rightarrow> disk" where
  "faulty_disk c e =
     \<lparr>entries = [([''data''], Dir), ([''data'', ''all_1_1_0''], Dir)],
      calls = [],
      faults = (\<lambda>c'. if c' = c then Some e else None)\<rparr>"

definition ex_detached_disk :: disk where
  "ex_detached_disk = \<lparr>entries =
      [([''data''], Dir),
       ([''data'', ''all_1_1_0''], Dir),
       ([''data'', ''detached''], Dir),
       ([''data'', ''detached'', ''broken_all_1_1_0''], Dir),
       ([''data'', ''detached'', ''broken_all_1_1_0_try1''], Dir)],
     calls = [], faults = (\<lambda>c. None)\<rparr>"

definition ex_stale_disk :: disk where
  "ex_stale_disk = \<lparr>entries =
      [([''data''], Dir),
       ([''data'', ''all_1_1_0''], Dir),
       ([''data'', ''all_1_1_0'', ''data.bin''], File ''abc''),
       ([''data'', ''all_1_1_1''], Dir),
       ([''data'', ''all_1_1_1'', ''stale.bin''], File ''old'')],
     calls = [], faults = (\<lambda>c. None)\<rparr>"

definition ex_tx :: "(nat, nat) Tx" where
  "ex_tx = \<lparr>PrehistoricTID = 1, DummyTID = 2, PrehistoricCSN = 1, RolledBackCSN = 3\<rparr>"

definition ex_version :: "(nat, nat) VersionMetadata" where
  "ex_version = \<lparr>creation_tid = 0, removal_tid = 0, creation_csn = 0, removal_csn = 0\<rparr>"

text \<open>A reader for the example: the creation fields in unary.\<close>

definition ex_read ::
  "string \<Rightarrow> (nat, nat) VersionMetadata \<Rightarrow> (exn + unit) \<times> (nat, nat) VersionMetadata" where
  "ex_read buf v =
     (Inr (), v\<lparr>creation_tid := length (filter (\<lambda>c. c = CHR ''t'') buf),
                 creation_csn := length (filter (\<lambda>c. c = CHR ''c'') buf)\<rparr>)"

definition ex_tmp_only_disk :: disk where
  "ex_tmp_only_disk = \<lparr>entries =
      [([''data''], Dir),
       ([''data'', ''all_1_1_0''], Dir),
       ([''data'', ''all_1_1_0'', ''txn_version.txt.tmp''], File ''tt'')],
     calls = [], faults = (\<lambda>c. None)\<rparr>"

text \<open>A disk on which the destination of a clone already exists.\<close>

definition ex_clone_disk :: disk where
  "ex_clone_disk = \<lparr>entries =
      [([''data''], Dir),
       ([''data'', ''all_1_1_0''], Dir),
       ([''data'', ''all_1_1_0'', ''data.bin''], File ''abc''),
       ([''data'', ''all_1_1_0'', ''checksums.txt''], File ''c''),
       ([''data'', ''all_1_1_0'', ''delete-on-destroy.txt''], File []),
       ([''data'', ''moving''], Dir),
       ([''data'', ''moving'', ''all_1_1_0''], Dir),
       ([''data'', ''moving'', ''all_1_1_0'', ''stale.bin''], File ''old'')],
     calls = [], faults = (\<lambda>c. None)\<rparr>"

text \<open>A part whose directory name has a directory prefix.\<close>

definition ex_prefixed_part :: DataPartStorageOnDisk where
  "ex_prefixed_part = \<lparr>root_path = ''data'', part_dir = ''detached/all_1_1_0''\<rparr>"

definition ex_prefixed_disk :: disk where
  "ex_prefixed_disk = \<lparr>entries =
      [([''data''], Dir),
       ([''data'', ''detached''], Dir),
       ([''data'', ''detached'', ''all_1_1_0''], Dir),
       ([''data'', ''detached'', ''all_1_1_0'', ''data.bin''], File ''abc'')],
     calls = [], faults = (\<lambda>c. None)\<rparr>"

section \<open>Facts about paths\<close>

lemma split_path_not_Nil [simp]: "split_path p \<noteq> []"
  by (induction p) (auto split: list.splits)

lemma split_path_append_slash:
  "split_path (p @ CHR ''/'' # q) = split_path p @ split_path q"
  by (induction p) (auto split: list.splits)

lemma components_append_slash:
  "components (p @ CHR ''/'' # q) = components p @ components q"
  by (simp add: components_def split_path_append_slash)

lemma components_Nil [simp]: "components [] = []"
  by (simp add: components_def)

lemma has_filename_iff: "has_filename p \<longleftrightarrow> p \<noteq> [] \<and> last p \<noteq> CHR ''/''"
proof (cases p rule: rev_cases)
  case Nil
  then show ?thesis by (simp add: has_filename_def filename_def)
next
  case (snoc xs x)
  then show ?thesis by (simp add: has_filename_def filename_def)
qed

lemma components_path_slash:
  assumes "\<not> is_absolute q"
  shows "components (path_slash p q) = components p @ components q"
proof (cases "has_filename p")
  case True
  then show ?thesis using assms
    by (simp add: path_slash_def components_append_slash)
next
  case False
  show ?thesis
  proof (cases p rule: rev_cases)
    case Nil
    then show ?thesis using assms False by (simp add: path_slash_def)
  next
    case (snoc xs x)
    with False have x: "x = CHR ''/''" by (simp add: has_filename_iff)
    have "components (xs @ [CHR ''/'']) = components xs"
      using components_append_slash [of xs "[]"] by simp
    moreover have "components ((xs @ [CHR ''/'']) @ q) = components xs @ components q"
      using components_append_slash [of xs q] by simp
    ultimately show ?thesis using assms False snoc x
      by (simp add: path_slash_def)
  qed
qed

lemma components_path_slash_Nil [simp]: "components (path_slash p []) = components p"
  by (simp add: components_path_slash is_absolute_def)

lemma split_path_plain: "CHR ''/'' \<notin> set w \<Longrightarrow> split_path w = [w]"
  by (induction w) auto

lemma components_plain: "w \<noteq> [] \<Longrightarrow> CHR ''/'' \<notin> set w \<Longrightarrow> components w = [w]"
  by (simp add: components_def split_path_plain)

lemma split_path_append_plain:
  "CHR ''/'' \<notin> set w \<Longrightarrow>
   split_path (a @ w) = butlast (split_path a) @ [last (split_path a) @ w]"
proof (induction a)
  case Nil
  then show ?case by (simp add: split_path_plain)
next
  case (Cons c a)
  then show ?case
    by (cases "split_path a") (auto split: list.splits)
qed

lemma components_append_plain:
  assumes "CHR ''/'' \<notin> set w" "w \<noteq> []"
  shows "components (a @ w)
         = filter (\<lambda>s. s \<noteq> []) (butlast (split_path a)) @ [last (split_path a) @ w]"
  using assms by (simp add: components_def split_path_append_plain)

lemma no_filename_trailing:
  "q = [] \<or> last q = CHR ''/'' \<Longrightarrow> \<not> has_filename (path_slash p q)"
  by (cases q rule: rev_cases) (auto simp: path_slash_def has_filename_iff is_absolute_def)

lemma path_slash_suffix: "\<not> is_absolute q \<Longrightarrow> \<exists>a. path_slash p q = a @ q"
proof (cases "has_filename p")
  case True
  assume "\<not> is_absolute q"
  then have "path_slash p q = (p @ ''/'') @ q" using True by (simp add: path_slash_def)
  then show ?thesis by blast
next
  case False
  assume "\<not> is_absolute q"
  then have "path_slash p q = p @ q" using False by (simp add: path_slash_def)
  then show ?thesis by blast
qed

lemma version_path_keys:
  "\<exists>pre x. components (version_path s) = pre @ [x @ ''txn_version.txt'']
         \<and> components (version_path s @ ''.tmp'') = pre @ [x @ ''txn_version.txt.tmp'']"
proof -
  obtain a where a: "version_path s = a @ ''txn_version.txt''"
    using path_slash_suffix [of "''txn_version.txt''" "path_slash (root_path s) (part_dir s)"]
    by (auto simp: version_path_def is_absolute_def)
  have 1: "components (a @ ''txn_version.txt'')
        = filter (\<lambda>s. s \<noteq> []) (butlast (split_path a)) @ [last (split_path a) @ ''txn_version.txt'']"
    by (rule components_append_plain) simp_all
  have 2: "components (a @ ''txn_version.txt.tmp'')
        = filter (\<lambda>s. s \<noteq> []) (butlast (split_path a)) @ [last (split_path a) @ ''txn_version.txt.tmp'']"
    by (rule components_append_plain) simp_all
  show ?thesis using a 1 2 by auto
qed

lemma version_path_key_facts:
  "components (version_path s) \<noteq> []"
  "components (version_path s @ ''.tmp'') \<noteq> []"
  "components (version_path s @ ''.tmp'') \<noteq> components (version_path s)"
  using version_path_keys [of s] by auto

lemma getFullRelativePath_components [simp]:
  "components (getFullRelativePath s) = components (path_slash (root_path s) (part_dir s))"
  by (simp add: getFullRelativePath_def)

text \<open>Two different plain names below the same directory are not nested. This holds for
  a part directory and its \<^verbatim>\<open>delete_tmp_\<close> sibling.\<close>

lemma components_path_slash_plain:
  assumes "a \<noteq> []" "CHR ''/'' \<notin> set a"
  shows "components (path_slash r a) = components r @ [a]"
proof -
  have "\<not> is_absolute a" using assms by (cases a) (auto simp: is_absolute_def)
  then show ?thesis using assms by (simp add: components_path_slash components_plain)
qed

lemma plain_names_not_nested:
  assumes "a \<noteq> []" "CHR ''/'' \<notin> set a" "b \<noteq> []" "CHR ''/'' \<notin> set b" "a \<noteq> b"
  shows "\<not> prefix (components (path_slash r a)) (components (path_slash r b))"
  using assms by (simp add: components_path_slash_plain)

lemma remove_paths_not_nested:
  assumes "part_dir s \<noteq> []" "CHR ''/'' \<notin> set (part_dir s)"
  shows "\<not> prefix (components (path_slash (root_path s) (part_dir s)))
               (components (path_slash (root_path s) (''delete_tmp_'' @ part_dir s)))"
    and "\<not> prefix (components (path_slash (root_path s) (''delete_tmp_'' @ part_dir s)))
               (components (path_slash (root_path s) (part_dir s)))"
proof -
  have ne: "part_dir s \<noteq> ''delete_tmp_'' @ part_dir s"
    by (metis append_self_conv2 list.distinct(1))
  have plain: "CHR ''/'' \<notin> set (''delete_tmp_'' @ part_dir s)" using assms by simp
  show "\<not> prefix (components (path_slash (root_path s) (part_dir s)))
               (components (path_slash (root_path s) (''delete_tmp_'' @ part_dir s)))"
    using assms plain ne by (intro plain_names_not_nested) simp_all
  show "\<not> prefix (components (path_slash (root_path s) (''delete_tmp_'' @ part_dir s)))
               (components (path_slash (root_path s) (part_dir s)))"
    using assms plain ne by (intro plain_names_not_nested) simp_all
qed

text \<open>The definitions that evaluate a path or a lookup on a concrete disk.\<close>

lemmas path_defs = path_slash_def is_absolute_def has_filename_def filename_def
  remove_filename_def components_def

lemmas eval_defs = path_defs exists_def disk_exists_def ends_with_slash_def parent_is_dir_def
  lookup_def Let_def

section \<open>Facts about the disk primitives\<close>

lemma map_of_filter_key:
  "map_of (filter (\<lambda>(k, n). P k) es) k = (if P k then map_of es k else None)"
  by (induction es) auto

lemma lookup_erase:
  "lookup (erase k es) k' = (if k' = k \<and> k' \<noteq> [] then None else lookup es k')"
  using map_of_filter_key [of "\<lambda>x. x \<noteq> k" es k']
  by (auto simp: lookup_def erase_def)

lemma lookup_erase_tree:
  "lookup (erase_tree p es) k = (if prefix p k \<and> k \<noteq> [] then None else lookup es k)"
  using map_of_filter_key [of "\<lambda>x. \<not> prefix p x" es k]
  by (auto simp: lookup_def erase_tree_def)

lemma lookup_put:
  "lookup (put k n es) k' =
     (if k' = [] then Some Dir else if k' = k then Some n else lookup es k')"
  using map_of_filter_key [of "\<lambda>x. x \<noteq> k" es k']
  by (auto simp: lookup_def put_def erase_def)

lemma erase_absent: "lookup es k = None \<Longrightarrow> erase k es = es"
proof -
  assume "lookup es k = None"
  then have "k \<notin> fst ` set es"
    by (auto simp: lookup_def map_of_eq_None_iff split: if_splits)
  then have "\<forall>x \<in> set es. (case x of (k', n) \<Rightarrow> k' \<noteq> k)"
    by force
  then show ?thesis
    unfolding erase_def by (rule filter_True)
qed

lemma filter_erase:
  "filter (\<lambda>(k, n). k \<notin> S) (erase a es) = filter (\<lambda>(k, n). k \<notin> insert a S) es"
  by (induction es) (auto simp: erase_def)

lemma no_children_lookup:
  "\<not> has_children es k \<Longrightarrow> strict_prefix k k' \<Longrightarrow> map_of es k' = None"
  by (auto simp: has_children_def list_ex_iff map_of_eq_None_iff)

lemma none_under_lookup:
  "none_under es p \<Longrightarrow> prefix p k \<Longrightarrow> k \<noteq> [] \<Longrightarrow> lookup es k = None"
  by (auto simp: none_under_def lookup_def map_of_eq_None_iff)

lemma none_under_subset: "none_under es p \<Longrightarrow> set es' \<subseteq> set es \<Longrightarrow> none_under es' p"
  by (auto simp: none_under_def)

lemma none_under_erase_tree [simp]: "none_under (erase_tree p es) p"
  by (auto simp: none_under_def erase_tree_def)

lemma and_then_Inr [simp]: "and_then (Inr x, d) f = f x d"
  by (simp add: and_then_def)

lemma and_then_Inl [simp]: "and_then (Inl e, d) f = (Inl e, d)"
  by (simp add: and_then_def)

lemma and_then_InrD:
  "and_then m f = (Inr y, d') \<Longrightarrow> \<exists>x d1. m = (Inr x, d1) \<and> f x d1 = (Inr y, d')"
  by (auto simp: and_then_def split: prod.splits sum.splits)

lemma invoke_fault:
  "faults d c = Some e \<Longrightarrow> invoke c f d = (Inl e, d\<lparr>calls := calls d @ [c]\<rparr>)"
  by (simp add: invoke_def)

lemma invoke_ok:
  "faults d c = None \<Longrightarrow>
   invoke c f d = (fst (f (entries d)), d\<lparr>calls := calls d @ [c], entries := snd (f (entries d))\<rparr>)"
  by (simp add: invoke_def split: prod.splits)

lemma invoke_faults [simp]: "faults (snd (invoke c f d)) = faults d"
  by (simp add: invoke_def Let_def split: option.splits prod.splits)

lemma invoke_calls [simp]: "calls (snd (invoke c f d)) = calls d @ [c]"
  by (simp add: invoke_def Let_def split: option.splits prod.splits)

lemma invoke_InrD:
  "invoke c f d = (Inr u, d') \<Longrightarrow>
   faults d c = None \<and> fst (f (entries d)) = Inr ()
   \<and> d' = d\<lparr>calls := calls d @ [c], entries := snd (f (entries d))\<rparr>"
  by (auto simp: invoke_def Let_def split: option.splits prod.splits)

lemma listFiles_ok:
  "faults d (ListFiles p) = None \<Longrightarrow> lookup (entries d) (components p) = Some Dir \<Longrightarrow>
   disk_listFiles p d = (Inr (), d\<lparr>calls := calls d @ [ListFiles p]\<rparr>)"
  by (simp add: disk_listFiles_def invoke_def)

lemma removeRecursive_ok:
  "faults d (RemoveRecursive p) = None \<Longrightarrow>
   disk_removeRecursive p d
     = (Inr (), d\<lparr>calls := calls d @ [RemoveRecursive p],
                   entries := erase_tree (components p) (entries d)\<rparr>)"
  by (simp add: disk_removeRecursive_def invoke_def)

lemma setLastModified_ok:
  "faults d (SetLastModified p t) = None \<Longrightarrow> lookup (entries d) (components p) \<noteq> None \<Longrightarrow>
   disk_setLastModified p t d = (Inr (), d\<lparr>calls := calls d @ [SetLastModified p t]\<rparr>)"
  by (auto simp: disk_setLastModified_def invoke_def)

lemma moveDirectory_ok:
  "faults d (MoveDirectory p q) = None \<Longrightarrow> lookup (entries d) (components p) \<noteq> None \<Longrightarrow>
   lookup (entries d) (components q) = None \<Longrightarrow>
   \<not> prefix (components p) (components q) \<Longrightarrow> \<not> prefix (components q) (components p) \<Longrightarrow>
   parent_is_dir (entries d) (components q) \<Longrightarrow>
   disk_moveDirectory p q d
     = (Inr (), d\<lparr>calls := calls d @ [MoveDirectory p q],
                   entries := move_entries (components p) (components q) (entries d)\<rparr>)"
  by (auto simp: disk_moveDirectory_def invoke_def Let_def move_entries_def)

lemma disk_exists_lookup:
  "disk_exists d p \<Longrightarrow> lookup (entries d) (components p) \<noteq> None"
  by (auto simp: disk_exists_def split: option.splits)

lemma disk_exists_absent:
  "lookup (entries d) (components p) = None \<Longrightarrow> \<not> disk_exists d p"
  by (simp add: disk_exists_def)

lemma disk_exists_plain:
  "\<not> ends_with_slash p \<Longrightarrow> disk_exists d p = (lookup (entries d) (components p) \<noteq> None)"
  by (auto simp: disk_exists_def split: option.splits node.splits)

lemma disk_exists_slash:
  "ends_with_slash p \<Longrightarrow> disk_exists d p = (lookup (entries d) (components p) = Some Dir)"
  by (auto simp: disk_exists_def split: option.splits node.splits)

lemma disk_exists_Dir:
  "lookup (entries d) (components p) = Some Dir \<Longrightarrow> disk_exists d p"
  by (simp add: disk_exists_def)

lemma ends_with_slash_path_slash_empty:
  "p \<noteq> [] \<Longrightarrow> ends_with_slash (path_slash p [])"
  by (auto simp: ends_with_slash_def path_slash_def is_absolute_def has_filename_iff)

lemma not_ends_with_slash_tmp [simp]: "\<not> ends_with_slash (p @ ''.tmp'')"
  by (simp add: ends_with_slash_def)

lemma getDirectorySyncGuard_ok:
  "faults d (GetDirectorySyncGuard p) = None \<Longrightarrow>
   disk_getDirectorySyncGuard p d = (Inr (), d\<lparr>calls := calls d @ [GetDirectorySyncGuard p]\<rparr>)"
  by (simp add: disk_getDirectorySyncGuard_def invoke_def)

lemma removeFile_ok:
  "faults d (RemoveFile p) = None \<Longrightarrow> lookup (entries d) (components p) = Some (File c) \<Longrightarrow>
   disk_removeFile p d
     = (Inr (), d\<lparr>calls := calls d @ [RemoveFile p],
                   entries := erase (components p) (entries d)\<rparr>)"
  by (simp add: disk_removeFile_def invoke_def remove_file_e_def)

lemma writeFile_ok:
  "faults d (WriteFile p m c) = None \<Longrightarrow> lookup (entries d) (components p) \<noteq> Some Dir \<Longrightarrow>
   parent_is_dir (entries d) (components p) \<Longrightarrow>
   \<exists>c'. disk_writeFile p m c d
     = (Inr (), d\<lparr>calls := calls d @ [WriteFile p m c],
                   entries := put (components p) (File c') (entries d)\<rparr>)
     \<and> (m = Rewrite \<longrightarrow> c' = c)"
  by (auto simp: disk_writeFile_def invoke_def split: option.splits node.splits)

lemma replaceFile_ok:
  "faults d (ReplaceFile p q) = None \<Longrightarrow> lookup (entries d) (components p) = Some (File c) \<Longrightarrow>
   lookup (entries d) (components q) \<noteq> Some Dir \<Longrightarrow>
   parent_is_dir (entries d) (components q) \<Longrightarrow>
   disk_replaceFile p q d
     = (Inr (), d\<lparr>calls := calls d @ [ReplaceFile p q],
                   entries := put (components q) (File c) (erase (components p) (entries d))\<rparr>)"
  by (simp add: disk_replaceFile_def invoke_def)

lemma createFile_failure_keeps_entries:
  "disk_createFile p d = (Inl e, d1) \<Longrightarrow> entries d1 = entries d"
  by (auto simp: disk_createFile_def invoke_def fs_throw_def Let_def
           split: option.splits prod.splits if_splits)

lemma remove_file_e_InrD:
  "remove_file_e p es = (Inr u, es') \<Longrightarrow> es' = erase (components p) es"
  by (auto simp: remove_file_e_def fs_throw_def split: option.splits node.splits)

lemma remove_file_if_exists_e_InrD:
  "remove_file_if_exists_e p es = (Inr u, es') \<Longrightarrow> es' = erase (components p) es"
  by (auto simp: remove_file_if_exists_e_def fs_throw_def erase_absent
           split: option.splits node.splits)

lemma remove_batch_InrD:
  "remove_batch rs es = (Inr u, es') \<Longrightarrow>
   es' = filter (\<lambda>(k, n). k \<notin> set (map (\<lambda>r. components (path r)) rs)) es"
proof (induction rs arbitrary: es)
  case Nil
  then show ?case by simp
next
  case (Cons r rs)
  from Cons.prems obtain es1 where
    1: "(if if_exists r then remove_file_if_exists_e (path r) es
         else remove_file_e (path r) es) = (Inr (), es1)"
    and 2: "remove_batch rs es1 = (Inr u, es')"
    by (auto split: prod.splits sum.splits)
  from 1 have e1: "es1 = erase (components (path r)) es"
    by (auto dest: remove_file_e_InrD remove_file_if_exists_e_InrD split: if_splits)
  show ?case
    using Cons.IH [OF 2] by (simp add: e1 filter_erase)
qed

lemma remove_batch_subset: "set (snd (remove_batch rs es)) \<subseteq> set es"
proof (induction rs arbitrary: es)
  case Nil
  then show ?case by simp
next
  case (Cons r rs)
  define step where "step = (if if_exists r then remove_file_if_exists_e (path r) es
                             else remove_file_e (path r) es)"
  have s: "set (snd step) \<subseteq> set es"
    by (auto simp: step_def remove_file_e_def remove_file_if_exists_e_def fs_throw_def
          erase_def split: option.splits node.splits)
  show ?case
  proof (cases "fst step")
    case (Inl e)
    then have "remove_batch (r # rs) es = (Inl e, snd step)"
      by (cases step) (simp add: step_def [symmetric])
    with s show ?thesis by simp
  next
    case (Inr u)
    then have "remove_batch (r # rs) es = remove_batch rs (snd step)"
      by (cases step) (simp add: step_def [symmetric])
    with s Cons.IH [of "snd step"] show ?thesis by auto
  qed
qed

lemma removeDirectory_InrD:
  "disk_removeDirectory p d = (Inr u, d') \<Longrightarrow>
   faults d (RemoveDirectory p) = None
   \<and> d' = d\<lparr>calls := calls d @ [RemoveDirectory p], entries := erase (components p) (entries d)\<rparr>
   \<and> none_under (entries d') (components p)"
proof -
  assume a: "disk_removeDirectory p d = (Inr u, d')"
  let ?k = "components p"
  from a have f: "faults d (RemoveDirectory p) = None"
    by (auto simp: disk_removeDirectory_def dest: invoke_InrD)
  from a have nc: "\<not> has_children (entries d) ?k" and
     d': "d' = d\<lparr>calls := calls d @ [RemoveDirectory p], entries := erase ?k (entries d)\<rparr>"
    by (auto simp: disk_removeDirectory_def fs_throw_def
             dest!: invoke_InrD split: option.splits node.splits if_splits)
  have "none_under (erase ?k (entries d)) ?k"
  proof (unfold none_under_def, intro ballI notI)
    fix k assume k: "k \<in> fst ` set (erase ?k (entries d))" and p: "prefix ?k k"
    from k have "k \<noteq> ?k" and "k \<in> fst ` set (entries d)" by (auto simp: erase_def)
    with p have "strict_prefix ?k k" by (simp add: strict_prefix_def)
    with nc have "map_of (entries d) k = None" by (rule no_children_lookup)
    with \<open>k \<in> fst ` set (entries d)\<close> show False by (simp add: map_of_eq_None_iff)
  qed
  with f d' show ?thesis by simp
qed

lemma removeSharedFiles_InrD:
  "disk_removeSharedFiles rs keep names d = (Inr u, d') \<Longrightarrow>
   d' = d\<lparr>calls := calls d @ [RemoveSharedFiles rs keep names],
          entries := filter (\<lambda>(k, n). k \<notin> set (map (\<lambda>r. components (path r)) rs)) (entries d)\<rparr>"
proof -
  assume a: "disk_removeSharedFiles rs keep names d = (Inr u, d')"
  then have 1: "fst (remove_batch rs (entries d)) = Inr ()"
    and 2: "d' = d\<lparr>calls := calls d @ [RemoveSharedFiles rs keep names],
                   entries := snd (remove_batch rs (entries d))\<rparr>"
    by (auto simp: disk_removeSharedFiles_def dest!: invoke_InrD)
  from 1 have "remove_batch rs (entries d) = (Inr (), snd (remove_batch rs (entries d)))"
    by (metis prod.collapse)
  from remove_batch_InrD [OF this] 2 show ?thesis by simp
qed

lemma removeSharedRecursive_unfaulted:
  "faults d (RemoveSharedRecursive p keep names) = None \<Longrightarrow>
   disk_removeSharedRecursive p keep names d
     = (Inr (), d\<lparr>calls := calls d @ [RemoveSharedRecursive p keep names],
                   entries := erase_tree (components p) (entries d)\<rparr>)"
  by (simp add: disk_removeSharedRecursive_def invoke_def)

lemma removeSharedFiles_faults [simp]:
  "faults (snd (disk_removeSharedFiles rs keep names d)) = faults d"
  by (simp add: disk_removeSharedFiles_def)

lemma removeDirectory_faults [simp]:
  "faults (snd (disk_removeDirectory p d)) = faults d"
  by (simp add: disk_removeDirectory_def)

lemma removeSharedRecursive_faults [simp]:
  "faults (snd (disk_removeSharedRecursive p keep names d)) = faults d"
  by (simp add: disk_removeSharedRecursive_def)

lemma invoke_entries_subset:
  "(\<And>es. set (snd (f es)) \<subseteq> set es) \<Longrightarrow>
   set (entries (snd (invoke c f d))) \<subseteq> set (entries d)"
  by (auto simp: invoke_def Let_def split: option.splits prod.splits) (metis snd_conv subsetD)

lemma erase_subset: "set (erase k es) \<subseteq> set es"
  by (auto simp: erase_def)

lemma erase_tree_subset: "set (erase_tree k es) \<subseteq> set es"
  by (auto simp: erase_tree_def)

lemma removeSharedFiles_subset:
  "set (entries (snd (disk_removeSharedFiles rs keep names d))) \<subseteq> set (entries d)"
  unfolding disk_removeSharedFiles_def
  by (rule invoke_entries_subset) (rule remove_batch_subset)

lemma removeDirectory_subset:
  "set (entries (snd (disk_removeDirectory p d))) \<subseteq> set (entries d)"
  unfolding disk_removeDirectory_def
  by (rule invoke_entries_subset)
     (auto simp: fs_throw_def erase_def split: option.splits node.splits)

lemma removeSharedRecursive_subset:
  "set (entries (snd (disk_removeSharedRecursive p keep names d))) \<subseteq> set (entries d)"
  unfolding disk_removeSharedRecursive_def
  by (rule invoke_entries_subset) (simp add: erase_tree_subset)

lemma none_under_move_entries:
  assumes "\<not> prefix f t" "\<not> prefix t f"
  shows "none_under (move_entries f t es) f"
proof (unfold none_under_def, intro ballI notI)
  fix k assume k: "k \<in> fst ` set (move_entries f t es)" and p: "prefix f k"
  from k obtain k0 n0 where "(k0, n0) \<in> set es"
    and k0: "k = (if prefix f k0 then rebase f t k0 else k0)"
    by (auto simp: move_entries_def split: if_splits)
  show False
  proof (cases "prefix f k0")
    case True
    with k0 p have "prefix f (t @ drop (length f) k0)" by (simp add: rebase_def)
    then show False using assms by (auto simp: prefix_append)
  next
    case False
    with k0 p show False by simp
  qed
qed

lemma comparable:
  "prefix a (b @ k) \<Longrightarrow> prefix a b \<or> prefix b a"
  using prefix_same_cases [of a "b @ k" b] by simp

lemma lookup_append:
  "lookup (as @ es) x =
     (if x = [] then Some Dir
      else case map_of as x of Some n \<Rightarrow> Some n | None \<Rightarrow> lookup es x)"
  by (simp add: lookup_def map_add_def split: option.splits)

lemma map_of_new_dirs:
  "map_of (map (\<lambda>k. (k, Dir)) ks) x = (if x \<in> set ks then Some Dir else None)"
  by (induction ks) auto

lemma map_of_rebased:
  "map_of (map (\<lambda>(k, n). (rebase f t k, n)) (filter (\<lambda>(k, n). prefix f k) es)) x
   = (if prefix t x then map_of es (f @ drop (length t) x) else None)"
proof (induction es)
  case Nil
  then show ?case by simp
next
  case (Cons e es)
  obtain k0 n0 where e: "e = (k0, n0)" by (cases e)
  show ?case
  proof (cases "prefix f k0")
    case False
    then have "k0 \<noteq> f @ drop (length t) x" by auto
    with False e Cons.IH show ?thesis by simp
  next
    case True
    then obtain r where k0: "k0 = f @ r" by (auto simp: prefix_def)
    have "(t @ r = x) = (prefix t x \<and> f @ drop (length t) x = f @ r)"
      by (auto simp: prefix_def)
    with True e k0 Cons.IH show ?thesis by (auto simp: rebase_def)
  qed
qed

lemma removeRecursive_InrD:
  "disk_removeRecursive p d = (Inr u, d') \<Longrightarrow>
   d' = d\<lparr>calls := calls d @ [RemoveRecursive p],
          entries := erase_tree (components p) (entries d)\<rparr>"
  by (auto simp: disk_removeRecursive_def dest!: invoke_InrD)

lemma createDirectories_InrD:
  "disk_createDirectories p d = (Inr u, d') \<Longrightarrow>
   d' = d\<lparr>calls := calls d @ [CreateDirectories p],
          entries := map (\<lambda>k. (k, Dir))
                       (filter (\<lambda>k. lookup (entries d) k = None) (prefixes (components p)))
                     @ entries d\<rparr>"
  by (auto simp: disk_createDirectories_def fs_throw_def dest!: invoke_InrD split: if_splits)

lemma copy_InrD:
  "disk_copy p q d = (Inr u, d') \<Longrightarrow>
   lookup (entries d) (components p) \<noteq> None
   \<and> d' = d\<lparr>calls := calls d @ [Copy p q],
            entries := map (\<lambda>(k, n). (rebase (components p) (components q) k, n))
                         (filter (\<lambda>(k, n). prefix (components p) k) (entries d))
                       @ entries d\<rparr>"
  by (auto simp: disk_copy_def fs_throw_def Let_def dest!: invoke_InrD split: if_splits)

lemma removeFileIfExists_InrD:
  "disk_removeFileIfExists p d = (Inr u, d') \<Longrightarrow>
   d' = d\<lparr>calls := calls d @ [RemoveFileIfExists p],
          entries := erase (components p) (entries d)\<rparr>"
proof -
  assume a: "disk_removeFileIfExists p d = (Inr u, d')"
  then have 1: "fst (remove_file_if_exists_e p (entries d)) = Inr ()"
    and 2: "d' = d\<lparr>calls := calls d @ [RemoveFileIfExists p],
                   entries := snd (remove_file_if_exists_e p (entries d))\<rparr>"
    by (auto simp: disk_removeFileIfExists_def dest!: invoke_InrD)
  from 1 have "remove_file_if_exists_e p (entries d)
               = (Inr (), snd (remove_file_if_exists_e p (entries d)))"
    by (metis prod.collapse)
  from remove_file_if_exists_e_InrD [OF this] 2 show ?thesis by simp
qed

lemma not_prefix_butlast: "t \<noteq> [] \<Longrightarrow> \<not> prefix t (butlast t)"
  by (cases t rule: rev_cases) (auto dest: prefix_length_le)

lemma parent_is_dir_erase_tree:
  "parent_is_dir es t \<Longrightarrow> t \<noteq> [] \<Longrightarrow> parent_is_dir (erase_tree t es) t"
  by (simp add: parent_is_dir_def lookup_erase_tree not_prefix_butlast)

lemma tree_like_parent:
  "tree_like es \<Longrightarrow> lookup es k = Some n \<Longrightarrow> parent_is_dir es k"
proof (cases "k = []")
  case True
  then show ?thesis by (simp add: parent_is_dir_def lookup_def)
next
  case False
  assume "tree_like es" "lookup es k = Some n"
  with False have "(k, n) \<in> set es" by (auto simp: lookup_def dest: map_of_SomeD)
  with \<open>tree_like es\<close> show ?thesis by (auto simp: tree_like_def list_all_iff)
qed

section \<open>Facts about the text of the version file\<close>

lemma digits_upt: "[0..<10] = [0, 1, 2, 3, 4, 5, 6, 7, 8, 9::nat]"
  by (simp add: upt_rec)

lemma digit_value_digit: "i < 10 \<Longrightarrow> digit_value (digit i) = Some i"
proof -
  assume "i < 10"
  then have "i = 0 \<or> i = 1 \<or> i = 2 \<or> i = 3 \<or> i = 4 \<or> i = 5 \<or> i = 6 \<or> i = 7
    \<or> i = 8 \<or> i = 9" by presburger
  then show ?thesis
    unfolding digit_value_def digits_upt by (elim disjE) (simp_all add: digit_def)
qed

lemma digit_not_newline: "i < 10 \<Longrightarrow> digit i \<noteq> newline"
proof -
  assume "i < 10"
  then have "i = 0 \<or> i = 1 \<or> i = 2 \<or> i = 3 \<or> i = 4 \<or> i = 5 \<or> i = 6 \<or> i = 7
    \<or> i = 8 \<or> i = 9" by presburger
  then show ?thesis by (elim disjE) (simp_all add: digit_def newline_def)
qed

lemma parse_digits_snoc:
  "parse_digits (xs @ [c]) acc =
     (case parse_digits xs acc of
        None \<Rightarrow> None
      | Some a \<Rightarrow> (case digit_value c of None \<Rightarrow> None | Some v \<Rightarrow> Some (10 * a + v)))"
  by (induction xs arbitrary: acc) (auto split: option.splits)

lemma parse_digits_toString: "parse_digits (toString n) 0 = Some n"
proof (induction n rule: toString.induct)
  case (1 n)
  show ?case
  proof (cases "n < 10")
    case True
    then show ?thesis by (subst toString.simps) (simp add: digit_value_digit)
  next
    case False
    then have "parse_digits (toString (n div 10)) 0 = Some (n div 10)" using 1 by simp
    with False show ?thesis
      by (subst toString.simps) (simp add: parse_digits_snoc digit_value_digit)
  qed
qed

lemma toString_not_empty: "toString n \<noteq> []"
  by (subst toString.simps) simp

lemma parse_number_toString: "parse_number (toString n) = Some n"
  by (simp add: parse_number_def toString_not_empty parse_digits_toString)

lemma toString_no_newline: "newline \<notin> set (toString n)"
proof (induction n rule: toString.induct)
  case (1 n)
  show ?case
  proof (cases "n < 10")
    case True
    then show ?thesis using digit_not_newline [of n] by (subst toString.simps) auto
  next
    case False
    then have "newline \<notin> set (toString (n div 10))" using 1 by simp
    with False show ?thesis
      using digit_not_newline [of "n mod 10"] by (subst toString.simps) auto
  qed
qed

lemma split_lines_line:
  "newline \<notin> set xs \<Longrightarrow>
   split_lines cur (xs @ newline # rest) = (rev cur @ xs) # split_lines [] rest"
  by (induction xs arbitrary: cur) auto

lemma split_lines_record:
  "newline \<notin> set field \<Longrightarrow>
   split_lines [] (version_record field n @ rest)
     = (field @ '': '' @ toString n) # split_lines [] rest"
proof -
  assume f: "newline \<notin> set field"
  have c: "CHR '':'' \<noteq> newline" "CHR '' '' \<noteq> newline" by (simp_all add: newline_def)
  have "newline \<notin> set (field @ '': '' @ toString n)"
    using f c toString_no_newline [of n] by auto
  from split_lines_line [OF this, of "[]" rest] show ?thesis
    by (simp add: version_record_def)
qed

lemma split_lines_write:
  "split_lines [] (VersionMetadata_write v)
     = [''creation_tid: '' @ toString (creation_tid v),
        ''creation_csn: '' @ toString (creation_csn v),
        ''removal_tid: '' @ toString (removal_tid v),
        ''removal_csn: '' @ toString (removal_csn v)]"
proof -
  have n: "newline \<notin> set ''creation_tid''" "newline \<notin> set ''creation_csn''"
    "newline \<notin> set ''removal_tid''" "newline \<notin> set ''removal_csn''"
    by (simp_all add: newline_def)
  have e: "split_lines [] (version_record field n) = [field @ '': '' @ toString n]"
    if "newline \<notin> set field" for field n
    using split_lines_record [OF that, of n "[]"] by simp
  show ?thesis
    unfolding VersionMetadata_write_def
    by (simp only: split_lines_record n e append_assoc simp_thms) simp
qed

lemma read_record_fields:
  "read_record (''creation_tid: '' @ toString n) v = (Inr (), v\<lparr>creation_tid := n\<rparr>)"
  "read_record (''creation_csn: '' @ toString n) v = (Inr (), v\<lparr>creation_csn := n\<rparr>)"
  "read_record (''removal_tid: '' @ toString n) v = (Inr (), v\<lparr>removal_tid := n\<rparr>)"
  "read_record (''removal_csn: '' @ toString n) v = (Inr (), v\<lparr>removal_csn := n\<rparr>)"
  by (simp_all add: read_record_def read_number_def parse_number_toString)

lemma VersionMetadata_read_write:
  "VersionMetadata_read (VersionMetadata_write v) target
     = (Inr (), target\<lparr>creation_tid := creation_tid v, creation_csn := creation_csn v,
                       removal_tid := removal_tid v, removal_csn := removal_csn v\<rparr>)"
  by (simp only: VersionMetadata_read_def split_lines_write read_records.simps
        read_record_fields prod.case sum.case)

lemma version_path_components:
  "components (version_path s)
     = components (path_slash (root_path s) (part_dir s)) @ [''txn_version.txt'']"
  "components (version_path s @ ''.tmp'')
     = components (path_slash (root_path s) (part_dir s)) @ [''txn_version.txt.tmp'']"
proof -
  show "components (version_path s)
     = components (path_slash (root_path s) (part_dir s)) @ [''txn_version.txt'']"
    unfolding version_path_def by (rule components_path_slash_plain) simp_all
  have "version_path s @ ''.tmp''
     = path_slash (path_slash (root_path s) (part_dir s)) ''txn_version.txt.tmp''"
    by (simp add: version_path_def path_slash_def is_absolute_def)
  then show "components (version_path s @ ''.tmp'')
     = components (path_slash (root_path s) (part_dir s)) @ [''txn_version.txt.tmp'']"
    by (simp add: components_path_slash_plain)
qed

lemma disk_exists_getFullRelativePath:
  "disk_exists d (getFullRelativePath s)
     = (lookup (entries d) (components (path_slash (root_path s) (part_dir s))) = Some Dir)"
proof (cases "getFullRelativePath s = []")
  case True
  have "disk_exists d [] = (lookup (entries d) (components []) = Some Dir)"
    by (simp add: disk_exists_def lookup_def)
  then show ?thesis
    using True getFullRelativePath_components [of s] by simp
next
  case False
  then have "ends_with_slash (getFullRelativePath s)"
    by (auto simp: getFullRelativePath_def path_slash_def is_absolute_def ends_with_slash_def
          has_filename_iff split: if_splits)
  then show ?thesis by (simp add: disk_exists_slash)
qed

section \<open>Facts about clearDirectory\<close>

lemma clear_projections_names:
  "clear_projections to_p can names ps pd d = (Inr pd', d') \<Longrightarrow>
   pd' = pd \<union> (\<lambda>p. name p @ ''.proj'') ` set ps"
proof (induction ps arbitrary: pd d)
  case Nil
  then show ?case by simp
next
  case (Cons p ps)
  from Cons.prems obtain d1 where
    "clear_projections to_p can names ps (insert (name p @ ''.proj'') pd) d1 = (Inr pd', d')"
    by (auto simp: Let_def dest!: and_then_InrD)
  from Cons.IH [OF this] show ?case by auto
qed

lemma clearDirectory_request_explicit:
  "clearDirectory_request dir cs skip is_projection =
     map (\<lambda>file. RemoveFileRequest (path_slash dir file) False)
       (filter (\<lambda>file. file \<notin> skip) (map fst (files cs)))
     @ [RemoveFileRequest (path_slash dir ''checksums.txt'') False,
        RemoveFileRequest (path_slash dir ''columns.txt'') False,
        RemoveFileRequest (path_slash dir ''default_compression_codec.txt'') True,
        RemoveFileRequest (path_slash dir ''delete-on-destroy.txt'') True]
     @ (if is_projection then []
        else [RemoveFileRequest (path_slash dir ''txn_version.txt'') True])"
  by (simp add: clearDirectory_request_def)

lemma clearDirectory_targeted:
  assumes ne: "files cs \<noteq> []"
    and rf: "disk_removeSharedFiles (clearDirectory_request dir cs skip is_projection)
               (\<not> can) names d = (Inr (), d3)"
    and rd: "disk_removeDirectory dir d3 = (Inr (), d4)"
  shows "clearDirectory dir can names cs skip is_projection d = (Inr (), d4)"
    and "calls d4 = calls d @ [RemoveSharedFiles (clearDirectory_request dir cs skip is_projection)
                                (\<not> can) names, RemoveDirectory dir]"
    and "entries d4 = filter (\<lambda>(k, n). k \<notin> set (map (\<lambda>r. components (path r))
                                  (clearDirectory_request dir cs skip is_projection))
                              \<and> k \<noteq> components dir) (entries d)"
proof -
  show "clearDirectory dir can names cs skip is_projection d = (Inr (), d4)"
    using ne rf rd by (simp add: clearDirectory_def)
  note a = removeSharedFiles_InrD [OF rf]
  note b = removeDirectory_InrD [OF rd]
  show "calls d4 = calls d @ [RemoveSharedFiles (clearDirectory_request dir cs skip is_projection)
                                (\<not> can) names, RemoveDirectory dir]"
    using a b by simp
  have "entries d4 = erase (components dir) (entries d3)" using b by simp
  also have "\<dots> = filter (\<lambda>(k, n). k \<noteq> components dir)
       (filter (\<lambda>(k, n). k \<notin> set (map (\<lambda>r. components (path r))
                                  (clearDirectory_request dir cs skip is_projection))) (entries d))"
    using a by (simp add: erase_def)
  also have "\<dots> = filter (\<lambda>(k, n). k \<notin> set (map (\<lambda>r. components (path r))
                                  (clearDirectory_request dir cs skip is_projection))
                              \<and> k \<noteq> components dir) (entries d)"
    by (auto simp: filter_filter intro!: filter_cong)
  finally show "entries d4 = filter (\<lambda>(k, n). k \<notin> set (map (\<lambda>r. components (path r))
                                  (clearDirectory_request dir cs skip is_projection))
                              \<and> k \<noteq> components dir) (entries d)" .
qed

lemma clearDirectory_fallback:
  assumes ne: "files cs \<noteq> []"
  shows "disk_removeSharedFiles (clearDirectory_request dir cs skip is_projection)
               (\<not> can) names d = (Inl e, d3) \<Longrightarrow>
         clearDirectory dir can names cs skip is_projection d
           = disk_removeSharedRecursive (path_slash dir []) (\<not> can) names d3"
    and "disk_removeSharedFiles (clearDirectory_request dir cs skip is_projection)
               (\<not> can) names d = (Inr (), d3) \<Longrightarrow>
         disk_removeDirectory dir d3 = (Inl e, d4) \<Longrightarrow>
         clearDirectory dir can names cs skip is_projection d
           = disk_removeSharedRecursive (path_slash dir []) (\<not> can) names d4"
  using ne by (simp_all add: clearDirectory_def)

lemma clearDirectory_faults [simp]:
  "faults (snd (clearDirectory dir can names cs skip is_projection d)) = faults d"
proof (cases "files cs = []")
  case True
  then show ?thesis by (simp add: clearDirectory_def)
next
  case ne: False
  let ?rf = "disk_removeSharedFiles (clearDirectory_request dir cs skip is_projection)
               (\<not> can) names d"
  obtain r3 d3 where rf: "?rf = (r3, d3)" by (cases ?rf)
  have f3: "faults d3 = faults d"
    using removeSharedFiles_faults [of "clearDirectory_request dir cs skip is_projection"
            "\<not> can" names d] rf by simp
  obtain r4 d4 where rd: "disk_removeDirectory dir d3 = (r4, d4)"
    by (cases "disk_removeDirectory dir d3")
  have f4: "faults d4 = faults d"
    using removeDirectory_faults [of dir d3] rd f3 by simp
  show ?thesis
    using ne rf rd f3 f4
    by (cases r3; cases r4) (simp_all add: clearDirectory_def)
qed

lemma clearDirectory_clears:
  assumes nf: "faults d (RemoveSharedRecursive (path_slash dir []) (\<not> can) names) = None"
  shows "fst (clearDirectory dir can names cs skip is_projection d) = Inr ()
         \<and> none_under (entries (snd (clearDirectory dir can names cs skip is_projection d)))
             (components dir)"
proof -
  let ?rec = "disk_removeSharedRecursive (path_slash dir []) (\<not> can) names"
  have rec: "fst (?rec x) = Inr () \<and> none_under (entries (snd (?rec x))) (components dir)"
    if "faults x = faults d" for x
    using removeSharedRecursive_unfaulted [of x "path_slash dir []" "\<not> can" names] nf that
    by simp
  show ?thesis
  proof (cases "files cs = []")
    case True
    then show ?thesis using rec [of d] by (simp add: clearDirectory_def)
  next
    case ne: False
    let ?rf = "disk_removeSharedFiles (clearDirectory_request dir cs skip is_projection)
                 (\<not> can) names d"
    obtain r3 d3 where rf: "?rf = (r3, d3)" by (cases ?rf)
    have f3: "faults d3 = faults d"
      using removeSharedFiles_faults [of "clearDirectory_request dir cs skip is_projection"
              "\<not> can" names d] rf by simp
    show ?thesis
    proof (cases r3)
      case (Inl e)
      then show ?thesis
        using clearDirectory_fallback(1) [OF ne, of dir skip is_projection can names d e d3]
          rf rec [OF f3] by simp
    next
      case (Inr u)
      obtain r4 d4 where rd: "disk_removeDirectory dir d3 = (r4, d4)"
        by (cases "disk_removeDirectory dir d3")
      have f4: "faults d4 = faults d"
        using removeDirectory_faults [of dir d3] rd f3 by simp
      show ?thesis
      proof (cases r4)
        case (Inl e)
        then show ?thesis
          using clearDirectory_fallback(2) [OF ne, of dir skip is_projection can names d d3 e d4]
            rf rd Inr rec [OF f4] by simp
      next
        case r4: (Inr u')
        have rf': "?rf = (Inr (), d3)" using rf Inr by simp
        have rd': "disk_removeDirectory dir d3 = (Inr (), d4)" using rd r4 by simp
        have "clearDirectory dir can names cs skip is_projection d = (Inr (), d4)"
          by (rule clearDirectory_targeted(1) [OF ne rf' rd'])
        moreover have "none_under (entries d4) (components dir)"
          using removeDirectory_InrD [OF rd'] by blast
        ultimately show ?thesis by simp
      qed
    qed
  qed
qed

lemma clearDirectory_subset:
  "set (entries (snd (clearDirectory dir can names cs skip is_projection d))) \<subseteq> set (entries d)"
proof (cases "files cs = []")
  case True
  then show ?thesis by (simp add: clearDirectory_def removeSharedRecursive_subset)
next
  case ne: False
  let ?rf = "disk_removeSharedFiles (clearDirectory_request dir cs skip is_projection)
               (\<not> can) names d"
  obtain r3 d3 where rf: "?rf = (r3, d3)" by (cases ?rf)
  have s3: "set (entries d3) \<subseteq> set (entries d)"
    using removeSharedFiles_subset [of "clearDirectory_request dir cs skip is_projection"
            "\<not> can" names d] rf by simp
  obtain r4 d4 where rd: "disk_removeDirectory dir d3 = (r4, d4)"
    by (cases "disk_removeDirectory dir d3")
  have s4: "set (entries d4) \<subseteq> set (entries d)"
    using removeDirectory_subset [of dir d3] rd s3 by auto
  have rec: "set (entries (snd (disk_removeSharedRecursive p k n x))) \<subseteq> set (entries d)"
    if "set (entries x) \<subseteq> set (entries d)" for p k n x
    using removeSharedRecursive_subset [of p k n x] that by blast
  show ?thesis
    using ne rf rd s3 s4 rec [OF s3] rec [OF s4]
    by (cases r3; cases r4) (simp_all add: clearDirectory_def)
qed

lemma clearDirectory_unfaulted:
  "faults d = (\<lambda>c. None) \<Longrightarrow>
   fst (clearDirectory dir can names cs skip is_projection d) = Inr ()"
  using clearDirectory_clears [of d dir can names cs skip is_projection] by simp

lemma clear_projections_unfaulted:
  "faults d = (\<lambda>c. None) \<Longrightarrow>
   \<exists>pd' d'. clear_projections to_p can names ps pd d = (Inr pd', d')
           \<and> faults d' = (\<lambda>c. None) \<and> set (entries d') \<subseteq> set (entries d)
           \<and> (ps = [] \<longrightarrow> d' = d)"
proof (induction ps arbitrary: pd d)
  case Nil
  then show ?case by simp
next
  case (Cons p ps)
  let ?c = "clearDirectory (path_slash to_p (name p @ ''.proj'')) can names (checksums p) {} True d"
  obtain d1 where c: "?c = (Inr (), d1)"
    using clearDirectory_unfaulted [OF Cons.prems, of "path_slash to_p (name p @ ''.proj'')"
            can names "checksums p" "{}" True]
    by (cases ?c) auto
  have f1: "faults d1 = (\<lambda>c. None)"
    using clearDirectory_faults [of "path_slash to_p (name p @ ''.proj'')"
            can names "checksums p" "{}" True d] c Cons.prems by simp
  have s1: "set (entries d1) \<subseteq> set (entries d)"
    using clearDirectory_subset [of "path_slash to_p (name p @ ''.proj'')"
            can names "checksums p" "{}" True d] c by simp
  from Cons.IH [OF f1, of "insert (name p @ ''.proj'') pd"] obtain pd' d' where
    "clear_projections to_p can names ps (insert (name p @ ''.proj'') pd) d1 = (Inr pd', d')"
    "faults d' = (\<lambda>c. None)" "set (entries d') \<subseteq> set (entries d1)"
    by blast
  with c s1 show ?case by (auto simp: Let_def)
qed

section \<open>Targeted deletion in remove\<close>

text \<open>
  C1. For a part whose checksum manifest is not empty, \<^verbatim>\<open>remove\<close>, once it has removed
  a stale \<^verbatim>\<open>delete_tmp_\<close> sibling, moved the directory to that sibling and cleared the
  projections, clears the sibling with the recorded projection directory names as the
  names to skip. Clearing a
  directory with a non-empty manifest requests the removal of exactly the manifest's
  files that are not skipped, then \<^verbatim>\<open>checksums.txt\<close> and \<^verbatim>\<open>columns.txt\<close>, then, tolerating
  their absence, \<^verbatim>\<open>default_compression_codec.txt\<close>, \<^verbatim>\<open>delete-on-destroy.txt\<close> and, unless
  the directory is a projection, \<^verbatim>\<open>txn_version.txt\<close>. When the batch and the removal of the
  directory succeed, these two calls are the only ones made, and exactly the requested
  entries and the directory are gone. When either fails, the result is that of the
  recursive removal of the directory on the disk the failure left. Whenever that
  recursive removal is not faulted, clearing returns normally and nothing is left at or
  below the directory.
\<close>

theorem remove_targeted_deletion:
  assumes "files cs \<noteq> []"
  shows
    "(let from_p = path_slash (root_path s) (part_dir s);
          to_p = path_slash (root_path s) (''delete_tmp_'' @ part_dir s)
      in (if disk_exists d0 to_p
          then disk_removeSharedRecursive (path_slash to_p []) (\<not> can) names d0
          else (Inr (), d0)) = (Inr (), d0')
         \<and> disk_moveDirectory from_p to_p d0' = (Inr (), d1)
         \<and> clear_projections to_p can names projections {} d1 = (Inr pd, d2) \<longrightarrow>
         pd = (\<lambda>p. name p @ ''.proj'') ` set projections
         \<and> remove_part s can names cs projections d0
             = clearDirectory to_p can names cs pd False d2)
     \<and> (let request =
               map (\<lambda>file. RemoveFileRequest (path_slash dir file) False)
                 (filter (\<lambda>file. file \<notin> skip) (map fst (files cs)))
               @ [RemoveFileRequest (path_slash dir ''checksums.txt'') False,
                  RemoveFileRequest (path_slash dir ''columns.txt'') False,
                  RemoveFileRequest (path_slash dir ''default_compression_codec.txt'') True,
                  RemoveFileRequest (path_slash dir ''delete-on-destroy.txt'') True]
               @ (if is_projection then []
                  else [RemoveFileRequest (path_slash dir ''txn_version.txt'') True]);
              result = clearDirectory dir can names cs skip is_projection d
         in (disk_removeSharedFiles request (\<not> can) names d = (Inr (), d3)
               \<and> disk_removeDirectory dir d3 = (Inr (), d4) \<longrightarrow>
             result = (Inr (), d4)
             \<and> calls d4 = calls d @ [RemoveSharedFiles request (\<not> can) names, RemoveDirectory dir]
             \<and> entries d4 = filter (\<lambda>(k, n). k \<notin> set (map (\<lambda>r. components (path r)) request)
                                              \<and> k \<noteq> components dir) (entries d))
          \<and> (disk_removeSharedFiles request (\<not> can) names d = (Inl e, d3) \<longrightarrow>
               result = disk_removeSharedRecursive (path_slash dir []) (\<not> can) names d3)
          \<and> (disk_removeSharedFiles request (\<not> can) names d = (Inr (), d3)
               \<and> disk_removeDirectory dir d3 = (Inl e, d4) \<longrightarrow>
               result = disk_removeSharedRecursive (path_slash dir []) (\<not> can) names d4)
          \<and> (faults d (RemoveSharedRecursive (path_slash dir []) (\<not> can) names) = None \<longrightarrow>
               fst result = Inr ()
               \<and> (\<forall>k. k \<noteq> [] \<and> prefix (components dir) k \<longrightarrow>
                      lookup (entries (snd result)) k = None)))"
proof -
  let ?from = "path_slash (root_path s) (part_dir s)"
  let ?to = "path_slash (root_path s) (''delete_tmp_'' @ part_dir s)"
  have A: "pd = (\<lambda>p. name p @ ''.proj'') ` set projections
         \<and> remove_part s can names cs projections d0
             = clearDirectory ?to can names cs pd False d2"
    if st: "(if disk_exists d0 ?to
             then disk_removeSharedRecursive (path_slash ?to []) (\<not> can) names d0
             else (Inr (), d0)) = (Inr (), d0')"
      and mv: "disk_moveDirectory ?from ?to d0' = (Inr (), d1)"
      and cp: "clear_projections ?to can names projections {} d1 = (Inr pd, d2)"
  proof -
    have "remove_part s can names cs projections d0
            = clearDirectory ?to can names cs pd False d2"
      by (simp only: remove_part_def Let_def st and_then_Inr mv cp prod.case sum.case)
    then show ?thesis
      using clear_projections_names [OF cp] by simp
  qed
  note req = clearDirectory_request_explicit [of dir cs skip is_projection, symmetric]
  note T = clearDirectory_targeted [OF assms, of dir skip is_projection can names d d3 d4]
  note F = clearDirectory_fallback [OF assms, of dir skip is_projection can names d]
  have C: "fst (clearDirectory dir can names cs skip is_projection d) = Inr ()
        \<and> (\<forall>k. k \<noteq> [] \<and> prefix (components dir) k \<longrightarrow>
               lookup (entries (snd (clearDirectory dir can names cs skip is_projection d))) k
                 = None)"
    if "faults d (RemoveSharedRecursive (path_slash dir []) (\<not> can) names) = None"
    using clearDirectory_clears [OF that, of cs skip is_projection]
    by (auto intro: none_under_lookup)
  show ?thesis
    unfolding Let_def req
    using A T F C by blast
qed

theorem remove_targeted_deletion_witness:
  "remove_part ex_part True {} ex_checksums [] ex_disk
   = (Inr (),
      \<lparr>entries = [([''data''], Dir)],
       calls = [MoveDirectory ''data/all_1_1_0'' ''data/delete_tmp_all_1_1_0'',
                RemoveSharedFiles
                  [RemoveFileRequest ''data/delete_tmp_all_1_1_0/data.bin'' False,
                   RemoveFileRequest ''data/delete_tmp_all_1_1_0/data.mrk'' False,
                   RemoveFileRequest ''data/delete_tmp_all_1_1_0/checksums.txt'' False,
                   RemoveFileRequest ''data/delete_tmp_all_1_1_0/columns.txt'' False,
                   RemoveFileRequest ''data/delete_tmp_all_1_1_0/default_compression_codec.txt'' True,
                   RemoveFileRequest ''data/delete_tmp_all_1_1_0/delete-on-destroy.txt'' True,
                   RemoveFileRequest ''data/delete_tmp_all_1_1_0/txn_version.txt'' True]
                  False {},
                RemoveDirectory ''data/delete_tmp_all_1_1_0''],
       faults = (\<lambda>c. None)\<rparr>)
   \<and> remove_part ex_part True {} ex_wrong_checksums [] ex_disk
   = (Inr (),
      \<lparr>entries = [([''data''], Dir)],
       calls = [MoveDirectory ''data/all_1_1_0'' ''data/delete_tmp_all_1_1_0'',
                RemoveSharedFiles
                  [RemoveFileRequest ''data/delete_tmp_all_1_1_0/data.bin'' False,
                   RemoveFileRequest ''data/delete_tmp_all_1_1_0/gone.bin'' False,
                   RemoveFileRequest ''data/delete_tmp_all_1_1_0/checksums.txt'' False,
                   RemoveFileRequest ''data/delete_tmp_all_1_1_0/columns.txt'' False,
                   RemoveFileRequest ''data/delete_tmp_all_1_1_0/default_compression_codec.txt'' True,
                   RemoveFileRequest ''data/delete_tmp_all_1_1_0/delete-on-destroy.txt'' True,
                   RemoveFileRequest ''data/delete_tmp_all_1_1_0/txn_version.txt'' True]
                  False {},
                RemoveSharedRecursive ''data/delete_tmp_all_1_1_0/'' False {}],
       faults = (\<lambda>c. None)\<rparr>)"
proof -
  let ?from = "''data/all_1_1_0''"
  let ?to = "''data/delete_tmp_all_1_1_0''"
  let ?tail = "[RemoveFileRequest ''data/delete_tmp_all_1_1_0/checksums.txt'' False,
               RemoveFileRequest ''data/delete_tmp_all_1_1_0/columns.txt'' False,
               RemoveFileRequest ''data/delete_tmp_all_1_1_0/default_compression_codec.txt'' True,
               RemoveFileRequest ''data/delete_tmp_all_1_1_0/delete-on-destroy.txt'' True,
               RemoveFileRequest ''data/delete_tmp_all_1_1_0/txn_version.txt'' True]"
  let ?req = "RemoveFileRequest ''data/delete_tmp_all_1_1_0/data.bin'' False
              # RemoveFileRequest ''data/delete_tmp_all_1_1_0/data.mrk'' False # ?tail"
  let ?req' = "RemoveFileRequest ''data/delete_tmp_all_1_1_0/data.bin'' False
              # RemoveFileRequest ''data/delete_tmp_all_1_1_0/gone.bin'' False # ?tail"
  define d1 where "d1 = \<lparr>entries =
      [([''data''], Dir),
       ([''data'', ''delete_tmp_all_1_1_0''], Dir),
       ([''data'', ''delete_tmp_all_1_1_0'', ''data.bin''], File ''abc''),
       ([''data'', ''delete_tmp_all_1_1_0'', ''data.mrk''], File ''m''),
       ([''data'', ''delete_tmp_all_1_1_0'', ''checksums.txt''], File ''c''),
       ([''data'', ''delete_tmp_all_1_1_0'', ''columns.txt''], File ''c''),
       ([''data'', ''delete_tmp_all_1_1_0'', ''delete-on-destroy.txt''], File [])],
     calls = [MoveDirectory ?from ?to], faults = (\<lambda>c. None)\<rparr>"
  define d3 where "d3 = \<lparr>entries =
      [([''data''], Dir), ([''data'', ''delete_tmp_all_1_1_0''], Dir)],
     calls = [MoveDirectory ?from ?to, RemoveSharedFiles ?req False {}],
     faults = (\<lambda>c. None)\<rparr>"
  define d4 where "d4 = \<lparr>entries = [([''data''], Dir)],
     calls = [MoveDirectory ?from ?to, RemoveSharedFiles ?req False {}, RemoveDirectory ?to],
     faults = (\<lambda>c. None)\<rparr>"
  define d3' where "d3' = \<lparr>entries =
      [([''data''], Dir),
       ([''data'', ''delete_tmp_all_1_1_0''], Dir),
       ([''data'', ''delete_tmp_all_1_1_0'', ''data.mrk''], File ''m''),
       ([''data'', ''delete_tmp_all_1_1_0'', ''checksums.txt''], File ''c''),
       ([''data'', ''delete_tmp_all_1_1_0'', ''columns.txt''], File ''c''),
       ([''data'', ''delete_tmp_all_1_1_0'', ''delete-on-destroy.txt''], File [])],
     calls = [MoveDirectory ?from ?to, RemoveSharedFiles ?req' False {}],
     faults = (\<lambda>c. None)\<rparr>"
  have from_p: "path_slash (root_path ex_part) (part_dir ex_part) = ?from"
    by (simp add: ex_part_def path_defs)
  have to_p: "path_slash (root_path ex_part) (''delete_tmp_'' @ part_dir ex_part) = ?to"
    by (simp add: ex_part_def path_defs)
  have ne: "files ex_checksums \<noteq> []" by (simp add: ex_checksums_def)
  have ne': "files ex_wrong_checksums \<noteq> []" by (simp add: ex_wrong_checksums_def)
  have st: "(if disk_exists ex_disk ?to
             then disk_removeSharedRecursive (path_slash ?to []) (\<not> True) {} ex_disk
             else (Inr (), ex_disk)) = (Inr (), ex_disk)"
    by (simp add: disk_exists_def components_def lookup_def ex_disk_def)
  have mv: "disk_moveDirectory ?from ?to ex_disk = (Inr (), d1)"
    by (simp add: disk_moveDirectory_def parent_is_dir_def invoke_def Let_def components_def lookup_def
          ex_disk_def d1_def move_entries_def rebase_def)
  have cp: "clear_projections ?to True {} [] {} d1 = (Inr {}, d1)" by simp
  have req: "map (\<lambda>file. RemoveFileRequest (path_slash ?to file) False)
                 (filter (\<lambda>file. file \<notin> {}) (map fst (files ex_checksums)))
               @ [RemoveFileRequest (path_slash ?to ''checksums.txt'') False,
                  RemoveFileRequest (path_slash ?to ''columns.txt'') False,
                  RemoveFileRequest (path_slash ?to ''default_compression_codec.txt'') True,
                  RemoveFileRequest (path_slash ?to ''delete-on-destroy.txt'') True]
               @ (if False then []
                  else [RemoveFileRequest (path_slash ?to ''txn_version.txt'') True]) = ?req"
    by (simp add: ex_checksums_def path_defs)
  have req': "map (\<lambda>file. RemoveFileRequest (path_slash ?to file) False)
                 (filter (\<lambda>file. file \<notin> {}) (map fst (files ex_wrong_checksums)))
               @ [RemoveFileRequest (path_slash ?to ''checksums.txt'') False,
                  RemoveFileRequest (path_slash ?to ''columns.txt'') False,
                  RemoveFileRequest (path_slash ?to ''default_compression_codec.txt'') True,
                  RemoveFileRequest (path_slash ?to ''delete-on-destroy.txt'') True]
               @ (if False then []
                  else [RemoveFileRequest (path_slash ?to ''txn_version.txt'') True]) = ?req'"
    by (simp add: ex_wrong_checksums_def path_defs)
  have rf: "disk_removeSharedFiles ?req (\<not> True) {} d1 = (Inr (), d3)"
    by (simp add: disk_removeSharedFiles_def invoke_def Let_def components_def lookup_def
          remove_file_e_def remove_file_if_exists_e_def erase_def d1_def d3_def)
  have rd: "disk_removeDirectory ?to d3 = (Inr (), d4)"
    by (simp add: disk_removeDirectory_def invoke_def Let_def components_def lookup_def
          has_children_def erase_def d3_def d4_def)
  have rf': "disk_removeSharedFiles ?req' (\<not> True) {} d1
             = (Inl (filesystem_error no_such_file_or_directory), d3')"
    by (simp add: disk_removeSharedFiles_def invoke_def Let_def components_def lookup_def
          remove_file_e_def remove_file_if_exists_e_def erase_def fs_throw_def d1_def d3'_def)
  have rec: "disk_removeSharedRecursive (path_slash ?to []) (\<not> True) {} d3'
             = (Inr (), \<lparr>entries = [([''data''], Dir)],
                  calls = [MoveDirectory ?from ?to, RemoveSharedFiles ?req' False {},
                           RemoveSharedRecursive ''data/delete_tmp_all_1_1_0/'' False {}],
                  faults = (\<lambda>c. None)\<rparr>)"
    by (simp add: disk_removeSharedRecursive_def invoke_def Let_def path_defs
          erase_tree_def d3'_def)
  note T = remove_targeted_deletion [OF ne, where s = ex_part and ?d0.0 = ex_disk
      and d0' = ex_disk and ?d1.0 = d1 and can = True and names = "{}"
      and projections = "[]" and pd = "{}" and ?d2.0 = d1 and dir = ?to and skip = "{}"
      and is_projection = False and d = d1 and ?d3.0 = d3 and ?d4.0 = d4,
      unfolded Let_def from_p to_p req]
  note T' = remove_targeted_deletion [OF ne', where s = ex_part and ?d0.0 = ex_disk
      and d0' = ex_disk and ?d1.0 = d1 and can = True and names = "{}"
      and projections = "[]" and pd = "{}" and ?d2.0 = d1 and dir = ?to and skip = "{}"
      and is_projection = False and d = d1 and ?d3.0 = d3'
      and e = "filesystem_error no_such_file_or_directory",
      unfolded Let_def from_p to_p req']
  from T st mv cp rf rd
  have 1: "remove_part ex_part True {} ex_checksums [] ex_disk
          = clearDirectory ?to True {} ex_checksums {} False d1"
    and 2: "clearDirectory ?to True {} ex_checksums {} False d1 = (Inr (), d4)"
    by blast+
  from T' st mv cp rf'
  have 3: "remove_part ex_part True {} ex_wrong_checksums [] ex_disk
          = clearDirectory ?to True {} ex_wrong_checksums {} False d1"
    and 4: "clearDirectory ?to True {} ex_wrong_checksums {} False d1
          = disk_removeSharedRecursive (path_slash ?to []) (\<not> True) {} d3'"
    by blast+
  show ?thesis
    unfolding 1 2 3 4 rec by (simp add: d4_def)
qed

section \<open>Crash residue of the version file\<close>

lemma remove_tmp_file_ok:
  "faults d = (\<lambda>c. None) \<Longrightarrow> lookup (entries d) (components p) = Some (File c) \<Longrightarrow>
   remove_tmp_file p d
     = (Inr (), d\<lparr>calls := calls d @ [RemoveFile p],
                   entries := erase (components p) (entries d)\<rparr>)"
  by (simp add: remove_tmp_file_def disk_getLastModified_def disk_readFile_def removeFile_ok)

text \<open>
  C2. When \<^verbatim>\<open>txn_version.txt\<close> does not exist: if its \<^verbatim>\<open>.tmp\<close> sibling does not exist
  either, \<^verbatim>\<open>loadVersionMetadata\<close> returns the version with the prehistoric transaction id
  and commit sequence number and leaves the disk as it was; if the sibling exists, the
  version it leaves has the dummy transaction id and the rolled-back commit sequence
  number, and when the sibling is a regular file and no disk call fails, the only disk
  call is the removal of that file, after which it no longer exists.
\<close>

theorem loadVersionMetadata_crash_residue:
  assumes "\<not> disk_exists d (version_path s)"
  shows
    "(let tmp = version_path s @ ''.tmp'';
          prehistoric = version\<lparr>creation_tid := PrehistoricTID tx,
                                creation_csn := PrehistoricCSN tx\<rparr>;
          rolled_back = version\<lparr>creation_tid := DummyTID tx,
                                creation_csn := RolledBackCSN tx\<rparr>;
          d' = d\<lparr>calls := calls d @ [RemoveFile tmp],
                 entries := erase (components tmp) (entries d)\<rparr>
      in
      (\<not> disk_exists d tmp \<longrightarrow>
         loadVersionMetadata tx read_version s version d = (Inr (), prehistoric, d))
      \<and> (disk_exists d tmp \<longrightarrow>
           fst (snd (loadVersionMetadata tx read_version s version d)) = rolled_back)
      \<and> ((\<exists>c. lookup (entries d) (components tmp) = Some (File c))
           \<and> faults d = (\<lambda>c. None) \<longrightarrow>
           loadVersionMetadata tx read_version s version d = (Inr (), rolled_back, d')
           \<and> \<not> disk_exists d' tmp))"
proof -
  let ?tmp = "version_path s @ ''.tmp''"
  let ?d' = "d\<lparr>calls := calls d @ [RemoveFile ?tmp],
                entries := erase (components ?tmp) (entries d)\<rparr>"
  have a: "\<not> disk_exists d ?tmp \<Longrightarrow>
        loadVersionMetadata tx read_version s version d
          = (Inr (), version\<lparr>creation_tid := PrehistoricTID tx,
                             creation_csn := PrehistoricCSN tx\<rparr>, d)"
    using assms by (simp add: loadVersionMetadata_def Let_def setCreationTID_def)
  have b: "disk_exists d ?tmp \<Longrightarrow>
        fst (snd (loadVersionMetadata tx read_version s version d))
          = version\<lparr>creation_tid := DummyTID tx, creation_csn := RolledBackCSN tx\<rparr>"
    using assms
    by (simp add: loadVersionMetadata_def Let_def setCreationTID_def split: prod.splits)
  have c: "loadVersionMetadata tx read_version s version d
          = (Inr (), version\<lparr>creation_tid := DummyTID tx,
                             creation_csn := RolledBackCSN tx\<rparr>, ?d')
        \<and> \<not> disk_exists ?d' ?tmp"
    if f: "lookup (entries d) (components ?tmp) = Some (File c)" and nf: "faults d = (\<lambda>c. None)"
    for c
  proof -
    have ex: "disk_exists d ?tmp" using f by (simp add: disk_exists_def)
    have "\<not> disk_exists ?d' ?tmp"
      using version_path_key_facts(2) [of s] by (simp add: disk_exists_def lookup_erase)
    then show ?thesis
      using assms ex remove_tmp_file_ok [OF nf f]
      by (simp add: loadVersionMetadata_def Let_def setCreationTID_def)
  qed
  show ?thesis
    unfolding Let_def using a b c by blast
qed

theorem loadVersionMetadata_crash_residue_witness:
  "\<not> disk_exists ex_disk (version_path ex_part)
   \<and> loadVersionMetadata ex_tx ex_read ex_part ex_version ex_disk
       = (Inr (), ex_version\<lparr>creation_tid := 1, creation_csn := 1\<rparr>, ex_disk)
   \<and> \<not> disk_exists ex_tmp_only_disk (version_path ex_part)
   \<and> loadVersionMetadata ex_tx ex_read ex_part ex_version ex_tmp_only_disk
       = (Inr (), ex_version\<lparr>creation_tid := 2, creation_csn := 3\<rparr>,
          \<lparr>entries = [([''data''], Dir), ([''data'', ''all_1_1_0''], Dir)],
           calls = [RemoveFile ''data/all_1_1_0/txn_version.txt.tmp''],
           faults = (\<lambda>c. None)\<rparr>)"
proof -
  have h1: "\<not> disk_exists ex_disk (version_path ex_part)"
    by (simp add: eval_defs version_path_def ex_disk_def ex_part_def)
  have h2: "\<not> disk_exists ex_tmp_only_disk (version_path ex_part)"
    by (simp add: eval_defs version_path_def ex_tmp_only_disk_def ex_part_def)
  show ?thesis
    using h1 h2
      loadVersionMetadata_crash_residue
        [OF h1, where version = ex_version and tx = ex_tx and read_version = ex_read]
      loadVersionMetadata_crash_residue
        [OF h2, where version = ex_version and tx = ex_tx and read_version = ex_read]
    by (simp add: eval_defs version_path_def ex_disk_def ex_tmp_only_disk_def ex_part_def
          ex_tx_def erase_def)
qed

section \<open>Writing and loading the version file\<close>

text \<open>
  C3. For every version metadata value \<open>v\<close>: on a disk where no call fails, the part
  directory exists and neither the path of the version file nor that of its \<^verbatim>\<open>.tmp\<close>
  sibling is a directory, \<^verbatim>\<open>writeVersionMetadata\<close> returns normally, and
  \<^verbatim>\<open>loadVersionMetadata\<close> on the disk it leaves, into any object, returns normally without
  changing the disk, with the creation transaction id and the creation commit sequence
  number of \<open>v\<close>.
\<close>

theorem writeVersionMetadata_loadVersionMetadata_roundtrip:
  assumes nf: "faults d = (\<lambda>c. None)"
    and dir: "disk_exists d (getFullRelativePath s)"
    and pd: "lookup (entries d) (components (version_path s)) \<noteq> Some Dir"
    and td: "lookup (entries d) (components (version_path s @ ''.tmp'')) \<noteq> Some Dir"
  shows "\<exists>d1 loaded.
           writeVersionMetadata VersionMetadata_write s v fsync_part_dir d = (Inr (), d1)
           \<and> loadVersionMetadata tx VersionMetadata_read s target d1 = (Inr (), loaded, d1)
           \<and> creation_tid loaded = creation_tid v \<and> creation_csn loaded = creation_csn v"
proof -
  let ?p = "version_path s"
  let ?tmp = "?p @ ''.tmp''"
  let ?kp = "components ?p"
  let ?kt = "components ?tmp"
  let ?text = "VersionMetadata_write v"
  let ?loaded = "target\<lparr>creation_tid := creation_tid v, creation_csn := creation_csn v,
                        removal_tid := removal_tid v, removal_csn := removal_csn v\<rparr>"
  note kf = version_path_key_facts [of s]
  define d1 where "d1 = d\<lparr>calls := calls d @ [WriteFile ?tmp Rewrite ?text],
                          entries := put ?kt (File ?text) (entries d)\<rparr>"
  define d2 where "d2 = (if fsync_part_dir
       then d1\<lparr>calls := calls d1 @ [GetDirectorySyncGuard (getFullRelativePath s)]\<rparr> else d1)"
  define d3 where "d3 = d2\<lparr>calls := calls d2 @ [ReplaceFile ?tmp ?p],
                          entries := put ?kp (File ?text) (erase ?kt (entries d2))\<rparr>"
  have part: "lookup (entries d) (components (path_slash (root_path s) (part_dir s))) = Some Dir"
    using dir by (simp add: disk_exists_getFullRelativePath)
  have par_t: "parent_is_dir (entries d) ?kt"
    using part by (simp add: parent_is_dir_def version_path_components)
  have f1: "faults d1 = (\<lambda>c. None)" using nf by (simp add: d1_def)
  have f2: "faults d2 = (\<lambda>c. None)" using f1 by (simp add: d2_def)
  have f3: "faults d3 = (\<lambda>c. None)" using f2 by (simp add: d3_def)
  have e2: "entries d2 = put ?kt (File ?text) (entries d)" by (simp add: d2_def d1_def)
  have par_p: "parent_is_dir (entries d2) ?kp"
    using part by (simp add: parent_is_dir_def version_path_components e2 lookup_put)
  have s1: "disk_writeFile ?tmp Rewrite ?text d = (Inr (), d1)"
    using writeFile_ok [of d ?tmp Rewrite ?text] nf td par_t by (auto simp: d1_def)
  have s2: "(if fsync_part_dir then disk_getDirectorySyncGuard (getFullRelativePath s) d1
             else (Inr (), d1)) = (Inr (), d2)"
    using f1 by (simp add: d2_def getDirectorySyncGuard_ok)
  have s3: "disk_replaceFile ?tmp ?p d2 = (Inr (), d3)"
    unfolding d3_def
  proof (rule replaceFile_ok)
    show "faults d2 (ReplaceFile ?tmp ?p) = None" using f2 by simp
    show "lookup (entries d2) ?kt = Some (File ?text)"
      using kf by (simp add: e2 lookup_put)
    show "lookup (entries d2) ?kp \<noteq> Some Dir"
      using kf pd by (simp add: e2 lookup_put)
    show "parent_is_dir (entries d2) ?kp" by (rule par_p)
  qed
  have w: "writeVersionMetadata VersionMetadata_write s v fsync_part_dir d = (Inr (), d3)"
    by (simp add: writeVersionMetadata_def Let_def s1 s2 s3)
  have lp: "lookup (entries d3) ?kp = Some (File ?text)"
    using kf by (simp add: d3_def lookup_put)
  have lt: "lookup (entries d3) ?kt = None"
    using kf by (simp add: d3_def lookup_put lookup_erase)
  have ns: "\<not> ends_with_slash ?p"
    by (simp add: version_path_def path_slash_def is_absolute_def ends_with_slash_def)
  have ex: "disk_exists d3 ?p" using lp ns by (simp add: disk_exists_plain)
  have nex: "\<not> disk_exists d3 ?tmp" using lt by (rule disk_exists_absent)
  have rd: "disk_readFile d3 ?p = Inr ?text" using lp f3 by (simp add: disk_readFile_def)
  have l: "loadVersionMetadata tx VersionMetadata_read s target d3 = (Inr (), ?loaded, d3)"
    by (simp add: loadVersionMetadata_def Let_def ex nex rd VersionMetadata_read_write)
  show ?thesis using w l by (intro exI [of _ d3] exI [of _ ?loaded]) simp
qed

theorem writeVersionMetadata_loadVersionMetadata_roundtrip_witness:
  "disk_exists ex_disk (getFullRelativePath ex_part)
   \<and> fst (writeVersionMetadata VersionMetadata_write ex_part
            (ex_version\<lparr>creation_tid := 42, creation_csn := 7\<rparr>) True ex_disk) = Inr ()
   \<and> fst (loadVersionMetadata ex_tx VersionMetadata_read ex_part ex_version
            (snd (writeVersionMetadata VersionMetadata_write ex_part
                    (ex_version\<lparr>creation_tid := 42, creation_csn := 7\<rparr>) True ex_disk)))
       = Inr ()
   \<and> creation_tid (fst (snd (loadVersionMetadata ex_tx VersionMetadata_read ex_part ex_version
            (snd (writeVersionMetadata VersionMetadata_write ex_part
                    (ex_version\<lparr>creation_tid := 42, creation_csn := 7\<rparr>) True ex_disk))))) = 42
   \<and> creation_csn (fst (snd (loadVersionMetadata ex_tx VersionMetadata_read ex_part ex_version
            (snd (writeVersionMetadata VersionMetadata_write ex_part
                    (ex_version\<lparr>creation_tid := 42, creation_csn := 7\<rparr>) True ex_disk))))) = 7"
proof -
  let ?v = "ex_version\<lparr>creation_tid := 42, creation_csn := 7\<rparr>"
  have nf: "faults ex_disk = (\<lambda>c. None)" by (simp add: ex_disk_def)
  have dir: "disk_exists ex_disk (getFullRelativePath ex_part)"
    by (simp add: eval_defs getFullRelativePath_def ex_disk_def ex_part_def)
  have pd: "lookup (entries ex_disk) (components (version_path ex_part)) \<noteq> Some Dir"
    by (simp add: eval_defs version_path_def ex_disk_def ex_part_def)
  have td: "lookup (entries ex_disk) (components (version_path ex_part @ ''.tmp'')) \<noteq> Some Dir"
    by (simp add: eval_defs version_path_def ex_disk_def ex_part_def)
  show ?thesis
    using dir writeVersionMetadata_loadVersionMetadata_roundtrip [where fsync_part_dir = True
        and tx = ex_tx and v = "?v" and target = ex_version, OF nf dir pd td]
    by auto
qed

section \<open>Removal of a part with an empty manifest\<close>

text \<open>
  With an empty manifest \<^verbatim>\<open>clearDirectory\<close> calls only the shared recursive removal. For a
  part directory that is a plain name in an existing root directory, on a disk where no
  call fails, \<^verbatim>\<open>remove\<close> returns normally, nothing is left at or below the part directory
  or its \<^verbatim>\<open>delete_tmp_\<close> sibling, and the last disk call is the shared recursive removal
  of the sibling; without projections the calls are the recursive removal of a stale
  sibling if there is one, the move, and that recursive removal.
\<close>

lemma remove_part_empty_manifest_plain_name:
  assumes empty: "files cs = []"
    and nf: "faults d = (\<lambda>c. None)"
    and plain: "part_dir s \<noteq> []" "CHR ''/'' \<notin> set (part_dir s)"
    and root: "lookup (entries d) (components (root_path s)) = Some Dir"
    and src: "exists d s"
  shows
    "(let from_p = path_slash (root_path s) (part_dir s);
          to_p = path_slash (root_path s) (''delete_tmp_'' @ part_dir s);
          recursive = RemoveSharedRecursive (path_slash to_p []) (\<not> can) names;
          r = remove_part s can names cs projections d
      in fst r = Inr ()
         \<and> (\<forall>k. prefix (components from_p) k \<or> prefix (components to_p) k \<longrightarrow>
                lookup (entries (snd r)) k = None)
         \<and> last (calls (snd r)) = recursive
         \<and> (projections = [] \<longrightarrow>
              calls (snd r) = calls d @ (if disk_exists d to_p then [recursive] else [])
                                @ [MoveDirectory from_p to_p, recursive]))"
proof -
  let ?from = "path_slash (root_path s) (part_dir s)"
  let ?to = "path_slash (root_path s) (''delete_tmp_'' @ part_dir s)"
  let ?f = "components ?from"
  let ?t = "components ?to"
  let ?rec = "RemoveSharedRecursive (path_slash ?to []) (\<not> can) names"
  note ft = remove_paths_not_nested(1) [OF plain]
  note tf = remove_paths_not_nested(2) [OF plain]
  have kt: "?t = components (root_path s) @ [''delete_tmp_'' @ part_dir s]"
    using plain by (intro components_path_slash_plain) simp_all
  have par: "parent_is_dir (entries d) ?t"
    unfolding parent_is_dir_def kt using root by simp
  have "last (part_dir s) \<in> set (part_dir s)" using plain(1) by (rule last_in_set)
  with plain(2) have "last (part_dir s) \<noteq> CHR ''/''" by auto
  then have nsl: "\<not> ends_with_slash ?to"
    using plain(1) by (auto simp: ends_with_slash_def path_slash_def is_absolute_def)
  have tne: "?t \<noteq> []" using tf by auto
  have fne: "?f \<noteq> []" using ft by auto
  define d0 where "d0 = (if disk_exists d ?to
      then d\<lparr>calls := calls d @ [?rec], entries := erase_tree ?t (entries d)\<rparr> else d)"
  have s0: "(if disk_exists d ?to
             then disk_removeSharedRecursive (path_slash ?to []) (\<not> can) names d
             else (Inr (), d)) = (Inr (), d0)"
    using nf by (simp add: d0_def removeSharedRecursive_unfaulted)
  have f0: "faults d0 = (\<lambda>c. None)" using nf by (simp add: d0_def)
  have c0: "calls d0 = calls d @ (if disk_exists d ?to then [?rec] else [])"
    by (simp add: d0_def)
  have t0: "lookup (entries d0) ?t = None"
  proof (cases "disk_exists d ?to")
    case True
    then show ?thesis using tne by (simp add: d0_def lookup_erase_tree)
  next
    case False
    with nsl show ?thesis by (simp add: d0_def disk_exists_plain)
  qed
  have src0: "lookup (entries d0) ?f \<noteq> None"
    using disk_exists_lookup [of d ?from] src tf
    by (auto simp: exists_def d0_def lookup_erase_tree)
  have par0: "parent_is_dir (entries d0) ?t"
    using par tne by (simp add: d0_def parent_is_dir_erase_tree)
  define d1 where "d1 = d0\<lparr>calls := calls d0 @ [MoveDirectory ?from ?to],
                          entries := move_entries ?f ?t (entries d0)\<rparr>"
  have s1: "disk_moveDirectory ?from ?to d0 = (Inr (), d1)"
    unfolding d1_def using f0 src0 t0 ft tf par0 by (intro moveDirectory_ok) simp_all
  have f1: "faults d1 = (\<lambda>c. None)" using f0 by (simp add: d1_def)
  have n1: "none_under (entries d1) ?f"
    using none_under_move_entries [OF ft tf] by (simp add: d1_def)
  obtain pd d2 where s2: "clear_projections ?to can names projections {} d1 = (Inr pd, d2)"
    and f2: "faults d2 = (\<lambda>c. None)" and sub2: "set (entries d2) \<subseteq> set (entries d1)"
    and same2: "projections = [] \<longrightarrow> d2 = d1"
    using clear_projections_unfaulted [OF f1, of ?to can names projections "{}"] by blast
  define d3 where "d3 = d2\<lparr>calls := calls d2 @ [?rec], entries := erase_tree ?t (entries d2)\<rparr>"
  have s3: "clearDirectory ?to can names cs pd False d2 = (Inr (), d3)"
    using empty f2 by (simp add: clearDirectory_def d3_def removeSharedRecursive_unfaulted)
  have r: "remove_part s can names cs projections d = (Inr (), d3)"
    by (simp only: remove_part_def Let_def s0 and_then_Inr s1 s2 s3 prod.case sum.case)
  have n3f: "none_under (entries d3) ?f"
    using n1 sub2 erase_tree_subset [of ?t "entries d2"]
    by (auto simp: d3_def intro: none_under_subset)
  have n3t: "none_under (entries d3) ?t" by (simp add: d3_def)
  have gone: "lookup (entries d3) k = None" if "prefix ?f k \<or> prefix ?t k" for k
  proof -
    from that fne tne have "k \<noteq> []" by auto
    with that n3f n3t show ?thesis by (auto intro: none_under_lookup)
  qed
  have l: "last (calls d3) = ?rec" by (simp add: d3_def)
  have c: "calls d3 = calls d @ (if disk_exists d ?to then [?rec] else [])
                        @ [MoveDirectory ?from ?to, ?rec]" if "projections = []"
    using that same2 c0 by (simp add: d3_def d1_def)
  show ?thesis
    unfolding Let_def r using gone l c by simp
qed

lemma remove_part_empty_manifest_plain_name_example:
  "exists ex_disk ex_part
   \<and> fst (remove_part ex_part True {} \<lparr>files = []\<rparr> [] ex_disk) = Inr ()
   \<and> lookup (entries (snd (remove_part ex_part True {} \<lparr>files = []\<rparr> [] ex_disk)))
         [''data'', ''all_1_1_0'', ''data.bin''] = None
   \<and> calls (snd (remove_part ex_part True {} \<lparr>files = []\<rparr> [] ex_disk))
       = [MoveDirectory ''data/all_1_1_0'' ''data/delete_tmp_all_1_1_0'',
          RemoveSharedRecursive ''data/delete_tmp_all_1_1_0/'' False {}]"
proof -
  have from_p: "path_slash (root_path ex_part) (part_dir ex_part) = ''data/all_1_1_0''"
    by (simp add: ex_part_def path_defs)
  have to_p: "path_slash (root_path ex_part) (''delete_tmp_'' @ part_dir ex_part)
              = ''data/delete_tmp_all_1_1_0''"
    by (simp add: ex_part_def path_defs)
  have kf: "components ''data/all_1_1_0'' = [''data'', ''all_1_1_0'']"
    by (simp add: components_def)
  have kt: "components ''data/delete_tmp_all_1_1_0'' = [''data'', ''delete_tmp_all_1_1_0'']"
    by (simp add: components_def)
  have h1: "files \<lparr>files = []\<rparr> = []" by simp
  have h2: "faults ex_disk = (\<lambda>c. None)" by (simp add: ex_disk_def)
  have plain: "part_dir ex_part \<noteq> []" "CHR ''/'' \<notin> set (part_dir ex_part)"
    by (simp_all add: ex_part_def)
  have root: "lookup (entries ex_disk) (components (root_path ex_part)) = Some Dir"
    by (simp add: eval_defs ex_disk_def ex_part_def)
  have src: "exists ex_disk ex_part"
    by (simp add: eval_defs ex_disk_def ex_part_def)
  have nt: "\<not> disk_exists ex_disk ''data/delete_tmp_all_1_1_0''"
    by (simp add: disk_exists_def kt lookup_def ex_disk_def)
  have sl: "path_slash ''data/delete_tmp_all_1_1_0'' [] = ''data/delete_tmp_all_1_1_0/''"
    by (simp add: path_defs)
  show ?thesis
    using src remove_part_empty_manifest_plain_name [OF h1 h2 plain root src, of True "{}" "[]"]
    unfolding Let_def from_p to_p kf kt sl
    using nt by (simp add: ex_disk_def)
qed

text \<open>
  C4. For a part whose checksum manifest is empty, \<^verbatim>\<open>remove\<close> is to delete the part
  directory by the recursive removal. The code does not when the name of the part
  directory has a directory prefix. With root path \<^verbatim>\<open>data\<close> and part directory
  \<^verbatim>\<open>detached/all_1_1_0\<close>, on a disk where no call fails, the destination of the move is
  \<^verbatim>\<open>data/delete_tmp_detached/all_1_1_0\<close>, which is not a sibling of the part directory and
  whose parent directory does not exist. The move fails with
  \<^verbatim>\<open>no_such_file_or_directory\<close>, the error that \<^verbatim>\<open>remove\<close> takes for a part directory that
  is already gone: it returns normally after that one call, without any recursive
  removal, and the part directory and its file are still on the disk.
\<close>

theorem remove_empty_manifest_prefixed_part_dir:
  "exists ex_prefixed_disk ex_prefixed_part
   \<and> fst (remove_part ex_prefixed_part True {} \<lparr>files = []\<rparr> [] ex_prefixed_disk) = Inr ()
   \<and> calls (snd (remove_part ex_prefixed_part True {} \<lparr>files = []\<rparr> [] ex_prefixed_disk))
       = [MoveDirectory ''data/detached/all_1_1_0'' ''data/delete_tmp_detached/all_1_1_0'']
   \<and> entries (snd (remove_part ex_prefixed_part True {} \<lparr>files = []\<rparr> [] ex_prefixed_disk))
       = entries ex_prefixed_disk
   \<and> exists (snd (remove_part ex_prefixed_part True {} \<lparr>files = []\<rparr> [] ex_prefixed_disk))
        ex_prefixed_part"
proof -
  have r: "remove_part ex_prefixed_part True {} \<lparr>files = []\<rparr> [] ex_prefixed_disk
      = (Inr (), ex_prefixed_disk\<lparr>calls :=
           [MoveDirectory ''data/detached/all_1_1_0'' ''data/delete_tmp_detached/all_1_1_0'']\<rparr>)"
    by (simp add: remove_part_def disk_moveDirectory_def invoke_def fs_throw_def eval_defs
          ex_prefixed_part_def ex_prefixed_disk_def)
  show ?thesis
    unfolding r by (simp add: eval_defs ex_prefixed_part_def ex_prefixed_disk_def)
qed

section \<open>The file set of a clone\<close>

lemma clone_InrD:
  assumes "clone s to_p dir_path d = (Inr s', d')"
  shows "\<exists>d1 d2 d3.
      (if disk_exists d (path_slash (path_slash to_p dir_path) [])
       then disk_removeRecursive (path_slash (path_slash to_p dir_path) []) d
       else (Inr (), d)) = (Inr (), d1)
    \<and> disk_createDirectories to_p d1 = (Inr (), d2)
    \<and> disk_copy (getFullRelativePath s) (path_slash (path_slash to_p dir_path) []) d2
        = (Inr (), d3)
    \<and> disk_removeFileIfExists
        (path_slash (path_slash (path_slash to_p dir_path) []) ''delete-on-destroy.txt'') d3
        = (Inr (), d')
    \<and> s' = \<lparr>root_path = to_p, part_dir = dir_path\<rparr>"
  using assms
  by (auto simp: clone_def Let_def and_then_def split: prod.splits sum.splits if_splits)

lemma ex_clone_result:
  "clone ex_part ''data/moving'' ''all_1_1_0'' ex_clone_disk
   = (Inr \<lparr>root_path = ''data/moving'', part_dir = ''all_1_1_0''\<rparr>,
      \<lparr>entries =
         [([''data'', ''moving'', ''all_1_1_0''], Dir),
          ([''data'', ''moving'', ''all_1_1_0'', ''data.bin''], File ''abc''),
          ([''data'', ''moving'', ''all_1_1_0'', ''checksums.txt''], File ''c''),
          ([''data''], Dir),
          ([''data'', ''all_1_1_0''], Dir),
          ([''data'', ''all_1_1_0'', ''data.bin''], File ''abc''),
          ([''data'', ''all_1_1_0'', ''checksums.txt''], File ''c''),
          ([''data'', ''all_1_1_0'', ''delete-on-destroy.txt''], File []),
          ([''data'', ''moving''], Dir)],
       calls = [RemoveRecursive ''data/moving/all_1_1_0/'',
                CreateDirectories ''data/moving'',
                Copy ''data/all_1_1_0/'' ''data/moving/all_1_1_0/'',
                RemoveFileIfExists ''data/moving/all_1_1_0/delete-on-destroy.txt''],
       faults = (\<lambda>c. None)\<rparr>)"
  by (simp add: clone_def getFullRelativePath_def eval_defs ex_part_def ex_clone_disk_def
        disk_removeRecursive_def disk_createDirectories_def disk_copy_def
        disk_removeFileIfExists_def invoke_def erase_tree_def erase_def rebase_def
        is_file_at_def remove_file_if_exists_e_def fs_throw_def)

text \<open>
  C5, as stated: the file set of the clone equals the file set of the source. It does
  not when the source holds the delete-on-destroy marker: the clone, made over an existing
  destination, returns normally and its file set lacks the marker the source has.
\<close>

theorem clone_file_set_counterexample:
  "fst (clone ex_part ''data/moving'' ''all_1_1_0'' ex_clone_disk)
     = Inr \<lparr>root_path = ''data/moving'', part_dir = ''all_1_1_0''\<rparr>
   \<and> [''delete-on-destroy.txt''] \<in> file_set ex_clone_disk (getFullRelativePath ex_part)
   \<and> [''delete-on-destroy.txt'']
       \<notin> file_set (snd (clone ex_part ''data/moving'' ''all_1_1_0'' ex_clone_disk))
                  (path_slash (path_slash ''data/moving'' ''all_1_1_0'') [])
   \<and> file_set (snd (clone ex_part ''data/moving'' ''all_1_1_0'' ex_clone_disk))
         (path_slash (path_slash ''data/moving'' ''all_1_1_0'') [])
       \<noteq> file_set ex_clone_disk (getFullRelativePath ex_part)"
proof -
  have a: "[''delete-on-destroy.txt''] \<in> file_set ex_clone_disk (getFullRelativePath ex_part)"
    by (simp add: file_set_def getFullRelativePath_def eval_defs ex_part_def ex_clone_disk_def)
  have b: "[''delete-on-destroy.txt'']
       \<notin> file_set (snd (clone ex_part ''data/moving'' ''all_1_1_0'' ex_clone_disk))
                  (path_slash (path_slash ''data/moving'' ''all_1_1_0'') [])"
    unfolding ex_clone_result by (simp add: file_set_def eval_defs)
  from a b show ?thesis unfolding ex_clone_result by auto
qed

text \<open>
  C5, amended. When \<^verbatim>\<open>clone\<close> returns normally, for a relative directory name, a
  destination that neither contains nor lies inside the source, and a disk on which
  nothing lies below a destination that does not exist: the calls are the recursive
  removal of the destination if it exists, the creation of the parent directories, the
  copy and the removal of the marker if it exists; every entry of the clone is the
  source's entry at the same relative path, except \<^verbatim>\<open>delete-on-destroy.txt\<close> directly in
  the clone, which is absent; so the clone's file set is the source's without that name,
  and the source's file set is unchanged.
\<close>

theorem clone_file_set:
  assumes ok: "clone s to_p dir_path d = (Inr s', d')"
    and rel: "\<not> is_absolute dir_path"
    and fc: "\<not> prefix (components (getFullRelativePath s))
                       (components (path_slash (path_slash to_p dir_path) []))"
    and cf: "\<not> prefix (components (path_slash (path_slash to_p dir_path) []))
                       (components (getFullRelativePath s))"
    and closed: "disk_exists d (path_slash (path_slash to_p dir_path) [])
                 \<or> none_under (entries d) (components (path_slash (path_slash to_p dir_path) []))"
  shows
    "(let path_to_clone = path_slash (path_slash to_p dir_path) [];
          src = getFullRelativePath s;
          marker = ''delete-on-destroy.txt''
      in s' = \<lparr>root_path = to_p, part_dir = dir_path\<rparr>
         \<and> calls d' = calls d
              @ (if disk_exists d path_to_clone then [RemoveRecursive path_to_clone] else [])
              @ [CreateDirectories to_p, Copy src path_to_clone,
                 RemoveFileIfExists (path_slash path_to_clone marker)]
         \<and> (\<forall>k. lookup (entries d') (components path_to_clone @ k)
                  = (if k = [marker] then None else lookup (entries d) (components src @ k)))
         \<and> file_set d' path_to_clone = file_set d src - {[marker]}
         \<and> file_set d' src = file_set d src)"
proof -
  let ?ptc = "path_slash (path_slash to_p dir_path) []"
  let ?src = "getFullRelativePath s"
  let ?mk = "''delete-on-destroy.txt''"
  let ?mp = "path_slash ?ptc ?mk"
  define c where "c = components ?ptc"
  define f where "f = components ?src"
  define tk where "tk = components to_p"
  have c_eq: "c = tk @ components dir_path"
    using rel by (simp add: c_def tk_def components_path_slash)
  have m_eq: "components ?mp = c @ [?mk]"
    by (simp add: c_def components_path_slash is_absolute_def components_plain)
  have fc': "\<not> prefix f c" and cf': "\<not> prefix c f"
    using fc cf by (simp_all add: c_def f_def)
  have cne: "c \<noteq> []" using cf' by auto
  have fne: "f \<noteq> []" using fc' by auto
  have fck: "\<not> prefix c (f @ k)" for k using comparable [of c f k] fc' cf' by blast
  have cfk: "\<not> prefix f (c @ k)" for k using comparable [of f c k] fc' cf' by blast
  from clone_InrD [OF ok] obtain d1 d2 d3 where
    s1: "(if disk_exists d ?ptc then disk_removeRecursive ?ptc d else (Inr (), d)) = (Inr (), d1)"
    and s2: "disk_createDirectories to_p d1 = (Inr (), d2)"
    and s3: "disk_copy ?src ?ptc d2 = (Inr (), d3)"
    and s4: "disk_removeFileIfExists ?mp d3 = (Inr (), d')"
    and s': "s' = \<lparr>root_path = to_p, part_dir = dir_path\<rparr>"
    by blast
  \<comment> \<open>the destination is cleared\<close>
  have e1: "entries d1 = (if disk_exists d ?ptc then erase_tree c (entries d) else entries d)"
    and c1: "calls d1 = calls d @ (if disk_exists d ?ptc then [RemoveRecursive ?ptc] else [])"
    using s1 by (auto simp: c_def dest: removeRecursive_InrD split: if_splits)
  have n1: "none_under (entries d1) c"
    using closed by (auto simp: e1 c_def)
  have c1k: "lookup (entries d1) (c @ k) = None" for k
    using n1 cne by (intro none_under_lookup [of _ c]) simp_all
  have f1k: "lookup (entries d1) (f @ k) = lookup (entries d) (f @ k)" for k
    using fck [of k] by (simp add: e1 lookup_erase_tree)
  \<comment> \<open>creating the parent directories touches neither side\<close>
  define new where "new = filter (\<lambda>k. lookup (entries d1) k = None) (prefixes tk)"
  have new_prefix: "prefix x tk" if "x \<in> set new" for x
    using that by (simp add: new_def)
  have e2: "entries d2 = map (\<lambda>k. (k, Dir)) new @ entries d1"
    and c2: "calls d2 = calls d1 @ [CreateDirectories to_p]"
    using createDirectories_InrD [OF s2] by (simp_all add: new_def tk_def)
  have f2k: "lookup (entries d2) (f @ k) = lookup (entries d) (f @ k)" for k
  proof -
    have "f @ k \<notin> set new"
    proof
      assume "f @ k \<in> set new"
      then have "prefix (f @ k) tk" by (rule new_prefix)
      then have "prefix f c" unfolding c_eq by (meson append_prefixD prefix_prefix)
      with fc' show False by simp
    qed
    then have "map_of (map (\<lambda>k. (k, Dir)) new) (f @ k) = None"
      by (simp only: map_of_new_dirs if_False)
    then show ?thesis using fne by (simp add: e2 lookup_append f1k)
  qed
  have c2k: "lookup (entries d2) (c @ k) = None" if "k \<noteq> []" for k
  proof -
    have "c @ k \<notin> set new"
    proof
      assume "c @ k \<in> set new"
      then have "prefix (c @ k) tk" by (rule new_prefix)
      then have "prefix (tk @ (components dir_path @ k)) (tk @ [])" by (simp add: c_eq)
      then have "prefix (components dir_path @ k) []" by (simp only: same_prefix_prefix)
      with that show False by simp
    qed
    then have "map_of (map (\<lambda>k. (k, Dir)) new) (c @ k) = None"
      by (simp only: map_of_new_dirs if_False)
    then show ?thesis using cne by (simp add: e2 lookup_append c1k)
  qed
  \<comment> \<open>the copy\<close>
  define R where
    "R = map (\<lambda>(k, n). (rebase f c k, n)) (filter (\<lambda>(k, n). prefix f k) (entries d2))"
  have e3: "entries d3 = R @ entries d2"
    and c3: "calls d3 = calls d2 @ [Copy ?src ?ptc]"
    and srcx2: "lookup (entries d2) f \<noteq> None"
    using copy_InrD [OF s3] by (simp_all add: R_def f_def c_def)
  have srcx: "lookup (entries d) f \<noteq> None"
    using srcx2 f2k [of "[]"] by simp
  have Rc: "map_of R (c @ k) = lookup (entries d) (f @ k)" for k
    using f2k [of k] fne by (simp add: R_def map_of_rebased lookup_def)
  have Rf: "map_of R (f @ k) = None" for k
    using fck [of k] by (simp add: R_def map_of_rebased)
  have c3k: "lookup (entries d3) (c @ k) = lookup (entries d) (f @ k)" for k
  proof (cases "k = []")
    case True
    then show ?thesis using srcx cne Rc [of "[]"] by (auto simp: e3 lookup_append)
  next
    case False
    then show ?thesis
      using cne Rc [of k] c2k [of k]
      by (auto simp: e3 lookup_append split: option.splits)
  qed
  have f3k: "lookup (entries d3) (f @ k) = lookup (entries d) (f @ k)" for k
    using fne Rf [of k] f2k [of k] by (simp add: e3 lookup_append)
  \<comment> \<open>the marker is stripped from the clone\<close>
  have e4: "entries d' = erase (c @ [?mk]) (entries d3)"
    and c4: "calls d' = calls d3 @ [RemoveFileIfExists ?mp]"
    using removeFileIfExists_InrD [OF s4] by (simp_all add: m_eq)
  have ck: "lookup (entries d') (c @ k)
            = (if k = [?mk] then None else lookup (entries d) (f @ k))" for k
    by (simp add: e4 lookup_erase c3k)
  have fk: "lookup (entries d') (f @ k) = lookup (entries d) (f @ k)" for k
  proof -
    have "f @ k \<noteq> c @ [?mk]"
    proof
      assume "f @ k = c @ [?mk]"
      then have "prefix f (c @ [?mk])" by (metis prefixI)
      with cfk show False by blast
    qed
    then show ?thesis by (simp add: e4 lookup_erase f3k)
  qed
  have calls: "calls d' = calls d
              @ (if disk_exists d ?ptc then [RemoveRecursive ?ptc] else [])
              @ [CreateDirectories to_p, Copy ?src ?ptc, RemoveFileIfExists ?mp]"
    by (simp add: c4 c3 c2 c1)
  have fs1: "file_set d' ?ptc = file_set d ?src - {[?mk]}"
    unfolding file_set_def c_def [symmetric] f_def [symmetric] by (auto simp: ck)
  have fs2: "file_set d' ?src = file_set d ?src"
    unfolding file_set_def f_def [symmetric] by (simp add: fk)
  show ?thesis
    unfolding Let_def c_def [symmetric] f_def [symmetric] using s' calls ck fs1 fs2 by blast
qed

theorem clone_file_set_witness:
  "file_set (snd (clone ex_part ''data/moving'' ''all_1_1_0'' ex_clone_disk))
         (path_slash (path_slash ''data/moving'' ''all_1_1_0'') [])
     = file_set ex_clone_disk (getFullRelativePath ex_part) - {[''delete-on-destroy.txt'']}
   \<and> calls (snd (clone ex_part ''data/moving'' ''all_1_1_0'' ex_clone_disk))
     = [RemoveRecursive ''data/moving/all_1_1_0/'',
        CreateDirectories ''data/moving'',
        Copy ''data/all_1_1_0/'' ''data/moving/all_1_1_0/'',
        RemoveFileIfExists ''data/moving/all_1_1_0/delete-on-destroy.txt'']"
proof -
  have ptc: "path_slash (path_slash ''data/moving'' ''all_1_1_0'') [] = ''data/moving/all_1_1_0/''"
    by (simp add: path_defs)
  have src: "getFullRelativePath ex_part = ''data/all_1_1_0/''"
    by (simp add: getFullRelativePath_def ex_part_def path_defs)
  have kc: "components ''data/moving/all_1_1_0/'' = [''data'', ''moving'', ''all_1_1_0'']"
    by (simp add: components_def)
  have kf: "components ''data/all_1_1_0/'' = [''data'', ''all_1_1_0'']"
    by (simp add: components_def)
  have ok: "clone ex_part ''data/moving'' ''all_1_1_0'' ex_clone_disk
            = (Inr \<lparr>root_path = ''data/moving'', part_dir = ''all_1_1_0''\<rparr>,
               snd (clone ex_part ''data/moving'' ''all_1_1_0'' ex_clone_disk))"
    unfolding ex_clone_result by simp
  have rel: "\<not> is_absolute ''all_1_1_0''" by (simp add: is_absolute_def)
  have fc: "\<not> prefix (components (getFullRelativePath ex_part))
                 (components (path_slash (path_slash ''data/moving'' ''all_1_1_0'') []))"
    unfolding ptc src kc kf by simp
  have cf: "\<not> prefix (components (path_slash (path_slash ''data/moving'' ''all_1_1_0'') []))
                 (components (getFullRelativePath ex_part))"
    unfolding ptc src kc kf by simp
  have ex: "disk_exists ex_clone_disk (path_slash (path_slash ''data/moving'' ''all_1_1_0'') [])"
    unfolding ptc by (simp add: disk_exists_def kc lookup_def ex_clone_disk_def)
  have closed: "disk_exists ex_clone_disk (path_slash (path_slash ''data/moving'' ''all_1_1_0'') [])
     \<or> none_under (entries ex_clone_disk)
          (components (path_slash (path_slash ''data/moving'' ''all_1_1_0'') []))"
    using ex by simp
  show ?thesis
    using clone_file_set [OF ok rel fc cf closed, unfolded Let_def] ex
    by (simp add: ptc src ex_clone_disk_def path_defs)
qed

section \<open>Probing for a free detached name\<close>

lemma upt_10: "[0..<10] = [0, 1, 2, 3, 4, 5, 6, 7, 8, 9::nat]"
  by (simp add: upt_rec)

lemma candidates_explicit:
  "map (candidate pfx dir) [0..<10]
   = map (\<lambda>sfx. (if pfx = [] then [] else pfx @ ''_'') @ dir @ sfx) detach_suffixes"
  by (simp add: upt_10 candidate_def toString.simps digit_def detach_suffixes_def)

lemma probe_find:
  "try_no \<le> 10 \<Longrightarrow>
   probe d base pfx dir res try_no =
     (case find (\<lambda>c. \<not> disk_exists d (path_slash base c))
             (map (candidate pfx dir) [try_no..<10]) of
        Some c \<Rightarrow> c
      | None \<Rightarrow> if try_no < 10 then candidate pfx dir 9 else res)"
proof (induction d base pfx dir res try_no rule: probe.induct)
  case (1 d base pfx dir res try_no)
  show ?case
  proof (cases "try_no < 10")
    case False
    then show ?thesis by (simp add: probe.simps)
  next
    case True
    let ?c = "candidate pfx dir try_no"
    show ?thesis
    proof (cases "disk_exists d (path_slash base ?c)")
      case False
      then show ?thesis using True
        by (subst probe.simps) (simp add: upt_conv_Cons)
    next
      case ex: True
      have ih: "probe d base pfx dir ?c (Suc try_no) =
         (case find (\<lambda>c. \<not> disk_exists d (path_slash base c))
                 (map (candidate pfx dir) [Suc try_no..<10]) of
            Some c \<Rightarrow> c
          | None \<Rightarrow> if Suc try_no < 10 then candidate pfx dir 9 else ?c)"
        using "1.IH" [OF True refl] ex True by simp
      have last: "\<not> Suc try_no < 10 \<Longrightarrow> ?c = candidate pfx dir 9"
      proof -
        assume "\<not> Suc try_no < 10"
        with True have "try_no = 9" by arith
        then show ?thesis by simp
      qed
      show ?thesis using True ex ih last
        by (subst probe.simps) (auto simp: upt_conv_Cons split: option.splits)
    qed
  qed
qed

text \<open>
  C6. \<^verbatim>\<open>getRelativePathForPrefix\<close> returns the first of the ten candidate names (the part
  directory name, preceded by the prefix and an underscore when the prefix is not empty,
  followed by nothing and then by \<^verbatim>\<open>_try1\<close> to \<^verbatim>\<open>_try9\<close>) that does not exist
  below the root path (below its \<^verbatim>\<open>detached\<close> subdirectory when asked), and the last
  candidate, the one ending in \<^verbatim>\<open>_try9\<close>, when all ten exist.
\<close>

theorem getRelativePathForPrefix_first_free:
  "getRelativePathForPrefix d s pfx detached =
     (let base = (if detached then path_slash (root_path s) ''detached'' else root_path s);
          stem = (if pfx = [] then [] else pfx @ ''_'') @ part_dir s
      in case find (\<lambda>c. \<not> disk_exists d (path_slash base c))
                (map (\<lambda>sfx. stem @ sfx) detach_suffixes) of
           Some c \<Rightarrow> c
         | None \<Rightarrow> stem @ ''_try9'')"
proof -
  let ?base = "if detached then path_slash (root_path s) ''detached'' else root_path s"
  have nine: "candidate pfx (part_dir s) 9
              = ((if pfx = [] then [] else pfx @ ''_'') @ part_dir s) @ ''_try9''"
    by (simp add: candidate_def toString.simps digit_def)
  have cands: "map (candidate pfx (part_dir s)) [0..<10]
     = map (\<lambda>sfx. ((if pfx = [] then [] else pfx @ ''_'') @ part_dir s) @ sfx) detach_suffixes"
    using candidates_explicit [of pfx "part_dir s"] by simp
  have "getRelativePathForPrefix d s pfx detached = probe d ?base pfx (part_dir s) [] 0"
    by (simp add: getRelativePathForPrefix_def)
  also have "\<dots> = (case find (\<lambda>c. \<not> disk_exists d (path_slash ?base c))
             (map (candidate pfx (part_dir s)) [0..<10]) of
        Some c \<Rightarrow> c
      | None \<Rightarrow> candidate pfx (part_dir s) 9)"
    using probe_find [of 0 d ?base pfx "part_dir s" "[]"] by simp
  finally show ?thesis
    unfolding cands nine Let_def .
qed

theorem getRelativePathForPrefix_first_free_witness:
  "getRelativePathForPrefix ex_detached_disk ex_part ''broken'' True = ''broken_all_1_1_0_try2''"
  using getRelativePathForPrefix_first_free [of ex_detached_disk ex_part "''broken''" True]
  by (simp add: eval_defs ex_detached_disk_def ex_part_def detach_suffixes_def)

section \<open>Renaming onto an existing destination\<close>

text \<open>
  C7, as stated: when the destination exists and \<^verbatim>\<open>remove_new_dir_if_exists\<close> is set, the
  destination is removed recursively and the move then proceeds. It does not when the
  destination is the part directory itself: \<^verbatim>\<open>rename\<close> of the part onto its own name, on
  a disk where no call fails, lists and recursively removes the part directory, then
  fails setting the time stamp of the directory it has just removed, and makes no move.
\<close>

theorem rename_destination_exists_counterexample:
  "exists ex_disk ex_part
   \<and> has_filename (path_slash (root_path ex_part) ''all_1_1_0'')
   \<and> disk_exists ex_disk (path_slash (path_slash (root_path ex_part) ''all_1_1_0'') [])
   \<and> fst (rename ex_part ''all_1_1_0'' True False 7 ex_disk) \<noteq> Inr ()
   \<and> calls (snd (snd (rename ex_part ''all_1_1_0'' True False 7 ex_disk)))
       = [ListFiles ''data/all_1_1_0/'', RemoveRecursive ''data/all_1_1_0/'',
          SetLastModified ''data/all_1_1_0/'' 7]
   \<and> entries (snd (snd (rename ex_part ''all_1_1_0'' True False 7 ex_disk))) = [([''data''], Dir)]"
  by (simp add: rename_def getFullRelativePath_def eval_defs ex_part_def ex_disk_def
        disk_listFiles_def disk_removeRecursive_def disk_setLastModified_def invoke_def
        erase_tree_def fs_throw_def)

text \<open>
  C7, amended. When the part directory exists, the new path has a file name and the
  destination exists: without \<^verbatim>\<open>remove_new_dir_if_exists\<close>, \<^verbatim>\<open>rename\<close> throws
  \<^verbatim>\<open>DIRECTORY_ALREADY_EXISTS\<close> and leaves the storage object and the disk as they were;
  with it, when the destination neither contains nor lies inside the part directory, no
  disk call fails and the entries of the disk form a tree, the destination is listed and
  removed recursively, then the time stamp of the source is set and the source is moved
  to the destination, and the storage object is bound to the new path.
\<close>

theorem rename_destination_exists:
  assumes src: "exists d s"
    and name: "has_filename (path_slash (root_path s) new_relative_path)"
    and dst: "disk_exists d (path_slash (path_slash (root_path s) new_relative_path) [])"
  shows
    "(let new_path = path_slash (root_path s) new_relative_path;
          to_p = path_slash new_path [];
          from_p = getFullRelativePath s;
          s' = s\<lparr>part_dir := filename new_path, root_path := remove_filename new_path\<rparr>
      in
      (\<not> remove_new_dir_if_exists \<longrightarrow>
         rename s new_relative_path remove_new_dir_if_exists fsync_part_dir now d
           = (Inl (Exception DIRECTORY_ALREADY_EXISTS), s, d))
      \<and> (remove_new_dir_if_exists
           \<and> \<not> prefix (components from_p) (components to_p)
           \<and> \<not> prefix (components to_p) (components from_p)
           \<and> faults d = (\<lambda>c. None)
           \<and> tree_like (entries d) \<longrightarrow>
         rename s new_relative_path remove_new_dir_if_exists fsync_part_dir now d
           = (Inr (), s',
              d\<lparr>calls := calls d @ [ListFiles to_p, RemoveRecursive to_p,
                                     SetLastModified from_p now, MoveDirectory from_p to_p]
                          @ (if fsync_part_dir
                             then [GetDirectorySyncGuard (getFullRelativePath s')] else []),
                entries := move_entries (components from_p) (components to_p)
                             (erase_tree (components to_p) (entries d))\<rparr>)))"
proof -
  let ?new = "path_slash (root_path s) new_relative_path"
  let ?to = "path_slash ?new []"
  let ?from = "getFullRelativePath s"
  let ?s' = "s\<lparr>part_dir := filename ?new, root_path := remove_filename ?new\<rparr>"
  have no: "\<not> remove_new_dir_if_exists \<Longrightarrow>
      rename s new_relative_path remove_new_dir_if_exists fsync_part_dir now d
        = (Inl (Exception DIRECTORY_ALREADY_EXISTS), s, d)"
    using src name dst by (simp add: rename_def Let_def)
  have "?new \<noteq> []" using name by (simp add: has_filename_iff)
  then have "ends_with_slash ?to" by (rule ends_with_slash_path_slash_empty)
  with dst have dir: "lookup (entries d) (components ?to) = Some Dir"
    by (simp add: disk_exists_slash)
  have yes: "rename s new_relative_path remove_new_dir_if_exists fsync_part_dir now d
        = (Inr (), ?s',
           d\<lparr>calls := calls d @ [ListFiles ?to, RemoveRecursive ?to,
                                  SetLastModified ?from now, MoveDirectory ?from ?to]
                       @ (if fsync_part_dir
                          then [GetDirectorySyncGuard (getFullRelativePath ?s')] else []),
             entries := move_entries (components ?from) (components ?to)
                          (erase_tree (components ?to) (entries d))\<rparr>)"
    if flag: remove_new_dir_if_exists
      and ft: "\<not> prefix (components ?from) (components ?to)"
      and tf: "\<not> prefix (components ?to) (components ?from)"
      and nf: "faults d = (\<lambda>c. None)"
      and tree: "tree_like (entries d)"
  proof -
    define d1 where "d1 = d\<lparr>calls := calls d @ [ListFiles ?to]\<rparr>"
    define d2 where "d2 = d1\<lparr>calls := calls d1 @ [RemoveRecursive ?to],
                    entries := erase_tree (components ?to) (entries d1)\<rparr>"
    define d3 where "d3 = d2\<lparr>calls := calls d2 @ [SetLastModified ?from now]\<rparr>"
    define d4 where "d4 = d3\<lparr>calls := calls d3 @ [MoveDirectory ?from ?to],
                    entries := move_entries (components ?from) (components ?to) (entries d3)\<rparr>"
    define d5 where "d5 = d4\<lparr>calls := calls d4 @ [GetDirectorySyncGuard (getFullRelativePath ?s')]\<rparr>"
    have tne: "components ?to \<noteq> []" using tf by auto
    have s1: "disk_listFiles ?to d = (Inr (), d1)"
      unfolding d1_def using nf dir by (intro listFiles_ok) simp_all
    have s2: "disk_removeRecursive ?to d1 = (Inr (), d2)"
      unfolding d2_def using nf by (intro removeRecursive_ok) (simp add: d1_def)
    have srcf: "lookup (entries d) (components ?from) \<noteq> None"
      using disk_exists_lookup [of d "path_slash (root_path s) (part_dir s)"] src
      by (simp add: exists_def)
    have f2: "lookup (entries d2) (components ?from) \<noteq> None"
      using srcf tf by (simp add: lookup_erase_tree d2_def d1_def)
    have t2: "lookup (entries d2) (components ?to) = None"
      using tne by (simp add: lookup_erase_tree d2_def d1_def)
    have p2: "parent_is_dir (entries d2) (components ?to)"
      using tree_like_parent [OF tree dir] tne
      by (simp add: d2_def d1_def parent_is_dir_erase_tree)
    have s3: "disk_setLastModified ?from now d2 = (Inr (), d3)"
      unfolding d3_def using nf f2 by (intro setLastModified_ok) (simp_all add: d2_def d1_def)
    have s4: "disk_moveDirectory ?from ?to d3 = (Inr (), d4)"
      unfolding d4_def using nf f2 t2 ft tf p2
      by (intro moveDirectory_ok) (simp_all add: d3_def d2_def d1_def)
    have s5: "disk_getDirectorySyncGuard (getFullRelativePath ?s') d4 = (Inr (), d5)"
      unfolding d5_def using nf
      by (intro getDirectorySyncGuard_ok) (simp add: d4_def d3_def d2_def d1_def)
    have r: "rename s new_relative_path remove_new_dir_if_exists fsync_part_dir now d
             = (Inr (), ?s', if fsync_part_dir then d5 else d4)"
      using src name dst flag
      by (simp add: rename_def Let_def s1 s2 s3 s4 s5)
    show ?thesis
      unfolding r by (simp add: d5_def d4_def d3_def d2_def d1_def)
  qed
  show ?thesis
    unfolding Let_def using no yes by blast
qed

theorem rename_destination_exists_witness:
  "exists ex_stale_disk ex_part
   \<and> tree_like (entries ex_stale_disk)
   \<and> rename ex_part ''all_1_1_1'' False False 7 ex_stale_disk
       = (Inl (Exception DIRECTORY_ALREADY_EXISTS), ex_part, ex_stale_disk)
   \<and> rename ex_part ''all_1_1_1'' True False 7 ex_stale_disk
       = (Inr (), \<lparr>root_path = ''data/'', part_dir = ''all_1_1_1''\<rparr>,
          \<lparr>entries = [([''data''], Dir),
                      ([''data'', ''all_1_1_1''], Dir),
                      ([''data'', ''all_1_1_1'', ''data.bin''], File ''abc'')],
           calls = [ListFiles ''data/all_1_1_1/'', RemoveRecursive ''data/all_1_1_1/'',
                    SetLastModified ''data/all_1_1_0/'' 7,
                    MoveDirectory ''data/all_1_1_0/'' ''data/all_1_1_1/''],
           faults = (\<lambda>c. None)\<rparr>)"
proof -
  have h1: "exists ex_stale_disk ex_part"
    by (simp add: eval_defs ex_stale_disk_def ex_part_def)
  have h2: "has_filename (path_slash (root_path ex_part) ''all_1_1_1'')"
    by (simp add: eval_defs ex_part_def)
  have h3: "disk_exists ex_stale_disk (path_slash (path_slash (root_path ex_part) ''all_1_1_1'') [])"
    by (simp add: eval_defs ex_stale_disk_def ex_part_def)
  have h4: "tree_like (entries ex_stale_disk)"
    by (simp add: tree_like_def eval_defs ex_stale_disk_def)
  show ?thesis
    using h1 h4 rename_destination_exists [OF h1 h2 h3, of False False 7]
      rename_destination_exists [OF h1 h2 h3, of True False 7]
    by (simp add: eval_defs ex_stale_disk_def ex_part_def getFullRelativePath_def
          move_entries_def erase_tree_def rebase_def)
qed

section \<open>Renaming to a path without a file name\<close>

text \<open>
  C8. When the part directory exists and the new relative path is empty or ends in a
  slash, \<^verbatim>\<open>rename\<close> throws \<^verbatim>\<open>LOGICAL_ERROR\<close>; the disk (its entries and the calls made
  on it) and the storage object are unchanged.
\<close>

theorem rename_empty_last_component:
  "exists d s \<Longrightarrow> new_relative_path = [] \<or> last new_relative_path = CHR ''/'' \<Longrightarrow>
   rename s new_relative_path remove_new_dir_if_exists fsync_part_dir now d
     = (Inl (Exception LOGICAL_ERROR), s, d)"
  using no_filename_trailing [of new_relative_path "root_path s"]
  by (simp add: rename_def)

theorem rename_empty_last_component_witness:
  "exists ex_disk ex_part \<and> last ''all_1_1_1/'' = CHR ''/''
   \<and> rename ex_part ''all_1_1_1/'' True True 7 ex_disk
       = (Inl (Exception LOGICAL_ERROR), ex_part, ex_disk)"
proof -
  have h: "exists ex_disk ex_part"
    by (simp add: exists_def disk_exists_def lookup_def ex_disk_def ex_part_def path_defs)
  have t: "''all_1_1_1/'' = [] \<or> last ''all_1_1_1/'' = CHR ''/''" by simp
  show ?thesis
    using h rename_empty_last_component [OF h t, of True True 7] by simp
qed

section \<open>Renaming a part that does not exist\<close>

text \<open>
  C9. When the part directory does not exist, \<^verbatim>\<open>rename\<close> throws
  \<^verbatim>\<open>FILE_DOESNT_EXIST\<close> whatever the new path and the flags are, and changes neither the
  disk nor the storage object.
\<close>

theorem rename_checks_source_first:
  "\<not> exists d s \<Longrightarrow>
   rename s new_relative_path remove_new_dir_if_exists fsync_part_dir now d
     = (Inl (Exception FILE_DOESNT_EXIST), s, d)"
  by (simp add: rename_def)

theorem rename_checks_source_first_witness:
  "\<not> exists ex_disk ex_missing_part
   \<and> \<not> has_filename (path_slash (root_path ex_missing_part) ''all_1_1_0/'')
   \<and> disk_exists ex_disk (path_slash (path_slash (root_path ex_missing_part) ''all_1_1_0/'') [])
   \<and> rename ex_missing_part ''all_1_1_0/'' False True 7 ex_disk
       = (Inl (Exception FILE_DOESNT_EXIST), ex_missing_part, ex_disk)"
proof -
  have h: "\<not> exists ex_disk ex_missing_part"
    by (simp add: exists_def disk_exists_def lookup_def ex_disk_def ex_missing_part_def path_defs)
  show ?thesis
    using h rename_checks_source_first [OF h, of "''all_1_1_0/''" False True 7]
    by (simp add: disk_exists_def lookup_def ex_disk_def ex_missing_part_def path_defs)
qed

section \<open>The delete-on-destroy marker\<close>

text \<open>
  C10, as stated: \<^verbatim>\<open>writeDeleteOnDestroyMarker\<close> always returns normally. It does not:
  on a disk whose \<^verbatim>\<open>createFile\<close> fails with a \<^verbatim>\<open>std::filesystem::filesystem_error\<close>, the
  exception leaves the function.
\<close>

theorem writeDeleteOnDestroyMarker_propagates_counterexample:
  "fst (writeDeleteOnDestroyMarker ex_part
          (faulty_disk (CreateFile ''data/all_1_1_0/delete-on-destroy.txt'')
             (filesystem_error io_error)))
   = Inl (filesystem_error io_error)"
  by (simp add: writeDeleteOnDestroyMarker_def disk_createFile_def invoke_def faulty_disk_def
        ex_part_def path_defs Let_def)

text \<open>
  C10, amended. When \<^verbatim>\<open>createFile\<close> throws, \<^verbatim>\<open>writeDeleteOnDestroyMarker\<close> returns
  normally, with the marker not created, if the exception is a \<^verbatim>\<open>Poco::Exception\<close>, and
  throws the same exception otherwise.
\<close>

theorem writeDeleteOnDestroyMarker_swallows_Poco_only:
  "disk_createFile
     (path_slash (path_slash (root_path s) (part_dir s)) ''delete-on-destroy.txt'') d
     = (Inl e, d1) \<Longrightarrow>
   (is_Poco_Exception e \<longrightarrow>
      writeDeleteOnDestroyMarker s d = (Inr (), d1) \<and> entries d1 = entries d)
   \<and> (\<not> is_Poco_Exception e \<longrightarrow> writeDeleteOnDestroyMarker s d = (Inl e, d1))"
  using createFile_failure_keeps_entries
  by (simp add: writeDeleteOnDestroyMarker_def)

theorem writeDeleteOnDestroyMarker_swallows_Poco_only_witness:
  "writeDeleteOnDestroyMarker ex_part
     (faulty_disk (CreateFile ''data/all_1_1_0/delete-on-destroy.txt'') (Exception NOT_ENOUGH_SPACE))
   = (Inr (),
      (faulty_disk (CreateFile ''data/all_1_1_0/delete-on-destroy.txt'') (Exception NOT_ENOUGH_SPACE))
        \<lparr>calls := [CreateFile ''data/all_1_1_0/delete-on-destroy.txt'']\<rparr>)"
proof -
  let ?c = "CreateFile ''data/all_1_1_0/delete-on-destroy.txt''"
  let ?d = "faulty_disk ?c (Exception NOT_ENOUGH_SPACE)"
  have p: "path_slash (path_slash (root_path ex_part) (part_dir ex_part)) ''delete-on-destroy.txt''
           = ''data/all_1_1_0/delete-on-destroy.txt''"
    by (simp add: ex_part_def path_defs)
  have h: "disk_createFile
     (path_slash (path_slash (root_path ex_part) (part_dir ex_part)) ''delete-on-destroy.txt'') ?d
     = (Inl (Exception NOT_ENOUGH_SPACE), ?d\<lparr>calls := [?c]\<rparr>)"
    unfolding p by (simp add: disk_createFile_def invoke_def faulty_disk_def)
  show ?thesis
    using writeDeleteOnDestroyMarker_swallows_Poco_only [OF h] by simp
qed

end
